theory Spec2Isabelle
  imports Main
begin

section \<open>Data model\<close>

text \<open>
  The values the lockfile codec, the registry index reader and the package fetcher work
  on. A field that a JavaScript object may lack is an \<open>option\<close> (\<open>None\<close> is
  \<open>undefined\<close>). A string is the list of its UTF-16 code units, which is what
  \<open>length\<close>, \<open>substring\<close> and \<open>split\<close> of JavaScript work on; the characters of
  the model are the code units below 256.
\<close>

datatype json = JNull | JBool bool | JNum int | JStr string
  | JArr "json list" | JObj "(string \<times> json) list"

record dependency =
  dep_name :: string
  dep_version :: string
  dep_source :: "string option"
  dep_features :: "json option"
  dep_optional :: "bool option"
  dep_default_features :: "bool option"

record registration =
  reg_id :: "string option"
  reg_name :: string
  reg_version :: string
  reg_source :: string
  reg_features :: "json option"
  reg_dependencies :: "dependency list"

record snapshot =
  snap_name :: string
  snap_version :: string
  snap_dependencies :: "dependency list"

record workspace =
  ws_root :: snapshot
  ws_members :: "snapshot list"

record lockfile =
  lf_workspace :: workspace
  lf_packages :: "registration list"

text \<open>
  Every \<open>throw\<close> and every failed \<open>ok(...)\<close> assertion of the source is a value of
  \<open>error\<close>. \<open>Thrown msg\<close> is an error raised by a collaborator that is not part of
  the code under study (file system, git, download, TOML and JSON parsers).
\<close>

datatype error =
    MissingRoot
  | InvalidPackage
  | InvalidManifest
  | NoPackageFound
  | PackageNotFound string
  | InvalidChecksum string string
  | Thrown string

record config =
  registry_local :: string
  registry_remote :: string
  resolveRemotePackage :: "registration \<Rightarrow> string"
  resolveLocalPackage :: "registration \<Rightarrow> string"
  resolveSource :: "registration \<Rightarrow> string"

section \<open>Registry index: the path of a name\<close>

text \<open>
  \<open>getPath\<close> collects the arguments of one call of \<open>path.join\<close>. Two of its
  branches put the number \<open>1\<close>, \<open>2\<close> or \<open>3\<close> itself into the argument list, so
  an argument is a number or a string. \<open>join\<close> is the library function and stays a
  parameter.
\<close>

datatype segment = Num nat | Str string

definition substring :: "string \<Rightarrow> nat \<Rightarrow> nat \<Rightarrow> string" where
  "substring s a b = take (b - a) (drop a s)"

definition getPath_parts :: "string \<Rightarrow> segment list" where
  "getPath_parts name =
     (if length name = 1 then [Num 1, Str name]
      else if length name = 2 then [Num 2, Str name]
      else if length name = 3 then [Num 3, Str (substring name 0 1)]
      else [Str (substring name 0 2), Str (substring name 2 4)])"

definition getPath :: "(segment list \<Rightarrow> 'p) \<Rightarrow> config \<Rightarrow> string \<Rightarrow> 'p" where
  "getPath join cfg name =
     join (Str (registry_local cfg) # getPath_parts name @ [Str name])"

section \<open>Lockfile validity\<close>

subsection \<open>Plain objects used as dictionaries\<close>

text \<open>
  \<open>isLockfileValid\<close> and \<open>compareDependencies\<close> collect the current entries in a
  plain object \<open>{}\<close>, assigning \<open>byName[name] = entry\<close> in order, and read it with
  \<open>byName[name]\<close>. Such an object has own properties and a prototype, at first
  \<open>Object.prototype\<close>:
  \<^item> assigning under the name \<open>__proto__\<close> makes the entry the prototype of the object
    and creates no own property; any other name creates or replaces an own property;
  \<^item> reading \<open>__proto__\<close> gives the prototype; reading another name gives the own
    property of that name, else the property of that name of an entry that was made
    the prototype, else the function that \<open>Object.prototype\<close> has under that name,
    else \<open>undefined\<close>.
  So a read finds an entry, or a value that is no entry, or nothing. An entry object is
  taken to have the properties that its interface declares.
\<close>

datatype 'p foreign = Builtin string | Object_prototype | Property 'p

datatype ('a, 'p) found = Entry 'a | Inherited "'p foreign"

record 'a js_object =
  own_properties :: "string \<rightharpoonup> 'a"
  prototype_entry :: "'a option"

definition object_prototype_keys :: "string list" where
  "object_prototype_keys =
     [''constructor'', ''__defineGetter__'', ''__defineSetter__'', ''hasOwnProperty'',
      ''__lookupGetter__'', ''__lookupSetter__'', ''isPrototypeOf'',
      ''propertyIsEnumerable'', ''toString'', ''valueOf'', ''toLocaleString'']"

definition empty_object :: "'a js_object" where
  "empty_object = \<lparr>own_properties = Map.empty, prototype_entry = None\<rparr>"

definition js_assign :: "'a js_object \<Rightarrow> string \<Rightarrow> 'a \<Rightarrow> 'a js_object" where
  "js_assign obj k v =
     (if k = ''__proto__'' then obj\<lparr>prototype_entry := Some v\<rparr>
      else obj\<lparr>own_properties := (own_properties obj)(k \<mapsto> v)\<rparr>)"

definition js_get ::
  "('a \<Rightarrow> string \<Rightarrow> 'p option) \<Rightarrow> 'a js_object \<Rightarrow> string \<Rightarrow> ('a, 'p) found option" where
  "js_get properties obj k =
     (if k = ''__proto__'' then
        (case prototype_entry obj of
           Some p \<Rightarrow> Some (Entry p)
         | None \<Rightarrow> Some (Inherited Object_prototype))
      else
        (case own_properties obj k of
           Some v \<Rightarrow> Some (Entry v)
         | None \<Rightarrow>
            (case (case prototype_entry obj of Some p \<Rightarrow> properties p k | None \<Rightarrow> None) of
               Some v \<Rightarrow> Some (Inherited (Property v))
             | None \<Rightarrow>
                 if k \<in> set object_prototype_keys then Some (Inherited (Builtin k))
                 else None)))"

text \<open>
  \<open>!value\<close> for a value that was found: objects and functions are truthy, a property
  value by its kind.
\<close>

definition truthy :: "('p \<Rightarrow> bool) \<Rightarrow> ('a, 'p) found \<Rightarrow> bool" where
  "truthy truthy_property v =
     (case v of
        Entry e \<Rightarrow> True
      | Inherited (Builtin k) \<Rightarrow> True
      | Inherited Object_prototype \<Rightarrow> True
      | Inherited (Property p) \<Rightarrow> truthy_property p)"

definition index_by :: "('a \<Rightarrow> string) \<Rightarrow> 'a list \<Rightarrow> 'a js_object" where
  "index_by key xs = fold (\<lambda>x byName. js_assign byName (key x) x) xs empty_object"

text \<open>The properties of a snapshot object and of a dependency object, and their truth.\<close>

datatype snapshot_field = Snapshot_text string | Snapshot_dependencies "dependency list"

datatype dependency_field = Dependency_text string | Dependency_flag bool | Dependency_data json

definition snapshot_property :: "snapshot \<Rightarrow> string \<Rightarrow> snapshot_field option" where
  "snapshot_property s k =
     (if k = ''name'' then Some (Snapshot_text (snap_name s))
      else if k = ''version'' then Some (Snapshot_text (snap_version s))
      else if k = ''dependencies'' then Some (Snapshot_dependencies (snap_dependencies s))
      else None)"

definition dependency_property :: "dependency \<Rightarrow> string \<Rightarrow> dependency_field option" where
  "dependency_property d k =
     (if k = ''name'' then Some (Dependency_text (dep_name d))
      else if k = ''version'' then Some (Dependency_text (dep_version d))
      else if k = ''source'' then map_option Dependency_text (dep_source d)
      else if k = ''features'' then map_option Dependency_data (dep_features d)
      else if k = ''optional'' then map_option Dependency_flag (dep_optional d)
      else if k = ''default_features'' then map_option Dependency_flag (dep_default_features d)
      else None)"

fun truthy_json :: "json \<Rightarrow> bool" where
  "truthy_json JNull = False"
| "truthy_json (JBool b) = b"
| "truthy_json (JNum n) = (n \<noteq> 0)"
| "truthy_json (JStr s) = (s \<noteq> [])"
| "truthy_json (JArr xs) = True"
| "truthy_json (JObj kvs) = True"

fun truthy_snapshot_field :: "snapshot_field \<Rightarrow> bool" where
  "truthy_snapshot_field (Snapshot_text s) = (s \<noteq> [])"
| "truthy_snapshot_field (Snapshot_dependencies ds) = True"

fun truthy_dependency_field :: "dependency_field \<Rightarrow> bool" where
  "truthy_dependency_field (Dependency_text s) = (s \<noteq> [])"
| "truthy_dependency_field (Dependency_flag b) = b"
| "truthy_dependency_field (Dependency_data j) = truthy_json j"

subsection \<open>\<open>compareDependencies\<close> and \<open>isLockfileValid\<close>\<close>

text \<open>
  \<open>satisfies\<close> of manifest/dependency is a parameter. Its first argument is what the
  dictionary of the current dependencies holds for the name of the locked dependency,
  an entry or an inherited value; its second argument is the locked dependency.

  The first argument of \<open>compareDependencies\<close> is the root of the workspace or what the
  dictionary of the members holds. A value that is no snapshot (a function,
  \<open>Object.prototype\<close>, a string, an array) has no \<open>dependencies\<close> property, so
  reading the length of \<open>current.dependencies\<close> throws a \<open>TypeError\<close>.
\<close>

fun locked_dependencies_loop ::
  "((dependency, dependency_field) found \<Rightarrow> dependency \<Rightarrow> bool)
     \<Rightarrow> dependency js_object \<Rightarrow> dependency list \<Rightarrow> bool" where
  "locked_dependencies_loop satisfies byName [] = True"
| "locked_dependencies_loop satisfies byName (dependency # rest) =
     (case js_get dependency_property byName (dep_name dependency) of
        None \<Rightarrow> False
      | Some currentValue \<Rightarrow>
          if \<not> truthy truthy_dependency_field currentValue then False
          else if \<not> satisfies currentValue dependency then False
          else locked_dependencies_loop satisfies byName rest)"

definition compareDependencies ::
  "((dependency, dependency_field) found \<Rightarrow> dependency \<Rightarrow> bool)
     \<Rightarrow> (snapshot, snapshot_field) found \<Rightarrow> snapshot \<Rightarrow> error + bool" where
  "compareDependencies satisfies current locked =
     (case current of
        Inherited v \<Rightarrow> Inl (Thrown ''TypeError'')
      | Entry c \<Rightarrow>
          if length (snap_dependencies c) \<noteq> length (snap_dependencies locked) then Inr False
          else Inr (locked_dependencies_loop satisfies
                      (index_by dep_name (snap_dependencies c)) (snap_dependencies locked)))"

fun locked_members_loop ::
  "((dependency, dependency_field) found \<Rightarrow> dependency \<Rightarrow> bool)
     \<Rightarrow> snapshot js_object \<Rightarrow> snapshot list \<Rightarrow> error + bool" where
  "locked_members_loop satisfies byName [] = Inr True"
| "locked_members_loop satisfies byName (member # rest) =
     (case js_get snapshot_property byName (snap_name member) of
        None \<Rightarrow> Inr False
      | Some currentMember \<Rightarrow>
          if \<not> truthy truthy_snapshot_field currentMember then Inr False
          else (case compareDependencies satisfies currentMember member of
                  Inl e \<Rightarrow> Inl e
                | Inr same \<Rightarrow>
                    if \<not> same then Inr False
                    else locked_members_loop satisfies byName rest))"

definition isLockfileValid ::
  "((dependency, dependency_field) found \<Rightarrow> dependency \<Rightarrow> bool)
     \<Rightarrow> lockfile \<Rightarrow> workspace \<Rightarrow> error + bool" where
  "isLockfileValid satisfies lockfile workspace =
     (case compareDependencies satisfies (Entry (ws_root workspace))
             (ws_root (lf_workspace lockfile)) of
        Inl e \<Rightarrow> Inl e
      | Inr same \<Rightarrow>
          if \<not> same then Inr False
          else if length (ws_members (lf_workspace lockfile)) \<noteq> length (ws_members workspace)
          then Inr False
          else locked_members_loop satisfies
                 (index_by snap_name (ws_members workspace))
                 (ws_members (lf_workspace lockfile)))"

text \<open>
  The validity rule in the words of the specification. The same-named current entry is
  the entry of that name; where a name occurs more than once among the current entries
  it is the last of them.
\<close>

definition same_named :: "('a \<Rightarrow> string) \<Rightarrow> 'a list \<Rightarrow> string \<Rightarrow> 'a option" where
  "same_named key xs n = find (\<lambda>x. key x = n) (rev xs)"

definition dependencies_satisfied ::
  "((dependency, dependency_field) found \<Rightarrow> dependency \<Rightarrow> bool)
     \<Rightarrow> snapshot \<Rightarrow> snapshot \<Rightarrow> bool" where
  "dependencies_satisfied satisfies current locked \<longleftrightarrow>
     length (snap_dependencies current) = length (snap_dependencies locked) \<and>
     (\<forall>d \<in> set (snap_dependencies locked).
        case same_named dep_name (snap_dependencies current) (dep_name d) of
          None \<Rightarrow> False
        | Some c \<Rightarrow> satisfies (Entry c) d)"

definition lockfile_still_valid ::
  "((dependency, dependency_field) found \<Rightarrow> dependency \<Rightarrow> bool)
     \<Rightarrow> lockfile \<Rightarrow> workspace \<Rightarrow> bool" where
  "lockfile_still_valid satisfies lockfile workspace \<longleftrightarrow>
     dependencies_satisfied satisfies (ws_root workspace) (ws_root (lf_workspace lockfile)) \<and>
     length (ws_members (lf_workspace lockfile)) = length (ws_members workspace) \<and>
     (\<forall>m \<in> set (ws_members (lf_workspace lockfile)).
        case same_named snap_name (ws_members workspace) (snap_name m) of
          None \<Rightarrow> False
        | Some c \<Rightarrow> dependencies_satisfied satisfies c m)"

text \<open>
  The names that a dictionary of this kind answers to before any assignment.
\<close>

definition inherited_names :: "string list" where
  "inherited_names = ''__proto__'' # object_prototype_keys"

section \<open>Lockfile codec\<close>

text \<open>
  A TOML document of the lockfile format, as the parser returns it and as the writer
  takes it: a \<open>root\<close> table, an array of \<open>members\<close> tables and an array of
  \<open>packages\<close> tables. A key that is missing is \<open>None\<close>; \<open>dependencies\<close> is
  \<open>None\<close> as well where its value is not an array. The model covers documents whose
  values have the types the format prescribes (strings, and arrays of strings). The
  TOML parser and writer are libraries and stay parameters \<open>parseToml\<close> and
  \<open>convertToToml\<close>.
\<close>

record toml_manifest =
  tm_name :: "string option"
  tm_version :: "string option"
  tm_dependencies :: "string list option"

record toml_package =
  tp_name :: "string option"
  tp_version :: "string option"
  tp_source :: "string option"
  tp_dependencies :: "string list option"

record toml_document =
  doc_root :: "toml_manifest option"
  doc_members :: "toml_manifest list option"
  doc_packages :: "toml_package list option"

text \<open>
  The registration of the first pass of \<open>fromToml\<close>: its dependencies are still the
  id strings of the file.
\<close>

record package_entry =
  pe_id :: string
  pe_name :: string
  pe_version :: string
  pe_source :: string
  pe_dependencies :: "string list"

text \<open>\<open>Array.prototype.map\<close> with a callback that may throw: the first error wins.\<close>

fun map_result :: "('a \<Rightarrow> error + 'b) \<Rightarrow> 'a list \<Rightarrow> error + 'b list" where
  "map_result f [] = Inr []"
| "map_result f (x # xs) =
     (case f x of
        Inl e \<Rightarrow> Inl e
      | Inr y \<Rightarrow> (case map_result f xs of Inl e \<Rightarrow> Inl e | Inr ys \<Rightarrow> Inr (y # ys)))"

text \<open>\<open>value || []\<close> for an array that may be missing.\<close>

definition or_empty :: "'a list option \<Rightarrow> 'a list" where
  "or_empty v = (case v of None \<Rightarrow> [] | Some xs \<Rightarrow> xs)"

text \<open>
  \<open>getRegistrationId\<close> of sources/registration, as its test fixes it:
  the id of \<open>a\<close> at \<open>1.0.0\<close> is \<open>a@1.0.0\<close>.
\<close>

definition getRegistrationId :: "string \<Rightarrow> string \<Rightarrow> string" where
  "getRegistrationId name version = name @ ''@'' @ version"

text \<open>
  Modelled from the spec: \<open>toDependency\<close> of sources/registration is not among the
  sources. The specification describes its result as a lightweight dependency standing
  in for the package, holding the package's own name, version and source.
\<close>

definition toDependency :: "package_entry \<Rightarrow> dependency" where
  "toDependency registration =
     \<lparr>dep_name = pe_name registration, dep_version = pe_version registration,
      dep_source = Some (pe_source registration), dep_features = None,
      dep_optional = None, dep_default_features = None\<rparr>"

text \<open>
  Modelled from the spec: \<open>getRegistration\<close> of resolve is not among the sources. The
  specification has the lookup match by name first and then require the candidate's
  version to satisfy the dependency's constraint, and makes no match and several matches
  both fatal. \<open>accepts constraint version\<close> is the semver test, a parameter.
\<close>

definition getRegistration ::
  "(string \<Rightarrow> string \<Rightarrow> bool) \<Rightarrow> registration list \<Rightarrow> dependency \<Rightarrow> registration option" where
  "getRegistration accepts graph dependency =
     (case filter (\<lambda>r. reg_name r = dep_name dependency \<and>
                        accepts (dep_version dependency) (reg_version r)) graph of
        [r] \<Rightarrow> Some r
      | _ \<Rightarrow> None)"

subsection \<open>Reading\<close>

text \<open>The first element of \<open>id.split(' ', 1)\<close>: the id up to its first space.\<close>

definition id_name :: "string \<Rightarrow> string" where
  "id_name dep_id = takeWhile (\<lambda>c. c \<noteq> CHR '' '') dep_id"

definition getDependency :: "string \<Rightarrow> (string \<rightharpoonup> dependency) \<Rightarrow> error + dependency" where
  "getDependency dep_id byName =
     (case byName (id_name dep_id) of
        None \<Rightarrow> Inl (PackageNotFound dep_id)
      | Some dependency \<Rightarrow> Inr dependency)"

definition toManifest :: "toml_manifest \<Rightarrow> (string \<rightharpoonup> dependency) \<Rightarrow> error + snapshot" where
  "toManifest v byName =
     (case (tm_name v, tm_version v, tm_dependencies v) of
        (Some name, Some version, Some ids) \<Rightarrow>
          if name \<noteq> [] \<and> version \<noteq> [] then
            (case map_result (\<lambda>dep_id. getDependency dep_id byName) ids of
               Inl e \<Rightarrow> Inl e
             | Inr dependencies \<Rightarrow>
                 Inr \<lparr>snap_name = name, snap_version = version,
                      snap_dependencies = dependencies\<rparr>)
          else Inl InvalidManifest
      | _ \<Rightarrow> Inl InvalidManifest)"

definition load_package :: "toml_package \<Rightarrow> error + package_entry" where
  "load_package v =
     (case (tp_name v, tp_version v, tp_source v, tp_dependencies v) of
        (Some name, Some version, Some source, Some dependencies) \<Rightarrow>
          if name \<noteq> [] \<and> version \<noteq> [] \<and> source \<noteq> [] then
            Inr \<lparr>pe_id = getRegistrationId name version, pe_name = name,
                 pe_version = version, pe_source = source,
                 pe_dependencies = dependencies\<rparr>
          else Inl InvalidPackage
      | _ \<Rightarrow> Inl InvalidPackage)"

text \<open>
  The first pass over the packages: each entry is checked and loaded, and its dependency
  stand-in is stored under its name.
\<close>

fun first_pass ::
  "(string \<rightharpoonup> dependency) \<Rightarrow> toml_package list
     \<Rightarrow> error + (package_entry list \<times> (string \<rightharpoonup> dependency))" where
  "first_pass byName [] = Inr ([], byName)"
| "first_pass byName (v # vs) =
     (case load_package v of
        Inl e \<Rightarrow> Inl e
      | Inr registration \<Rightarrow>
          (case first_pass (byName(pe_name registration \<mapsto> toDependency registration)) vs of
             Inl e \<Rightarrow> Inl e
           | Inr (rest, byName') \<Rightarrow> Inr (registration # rest, byName')))"

definition hydrate :: "(string \<rightharpoonup> dependency) \<Rightarrow> package_entry \<Rightarrow> error + registration" where
  "hydrate byName registration =
     (case map_result (\<lambda>dep_id. getDependency dep_id byName) (pe_dependencies registration) of
        Inl e \<Rightarrow> Inl e
      | Inr dependencies \<Rightarrow>
          Inr \<lparr>reg_id = Some (pe_id registration), reg_name = pe_name registration,
               reg_version = pe_version registration, reg_source = pe_source registration,
               reg_features = None, reg_dependencies = dependencies\<rparr>)"

text \<open>The body of \<open>fromToml\<close> after the parse.\<close>

definition fromParsed :: "toml_document \<Rightarrow> error + lockfile" where
  "fromParsed parsed =
     (case doc_root parsed of
        None \<Rightarrow> Inl MissingRoot
      | Some root_value \<Rightarrow>
         (case first_pass Map.empty (or_empty (doc_packages parsed)) of
            Inl e \<Rightarrow> Inl e
          | Inr (entries, byName) \<Rightarrow>
             (case map_result (hydrate byName) entries of
                Inl e \<Rightarrow> Inl e
              | Inr packages \<Rightarrow>
                 (case toManifest root_value byName of
                    Inl e \<Rightarrow> Inl e
                  | Inr root \<Rightarrow>
                     (case map_result (\<lambda>member. toManifest member byName)
                             (or_empty (doc_members parsed)) of
                        Inl e \<Rightarrow> Inl e
                      | Inr members \<Rightarrow>
                          Inr \<lparr>lf_workspace = \<lparr>ws_root = root, ws_members = members\<rparr>,
                               lf_packages = packages\<rparr>)))))"

definition fromToml :: "(string \<Rightarrow> error + toml_document) \<Rightarrow> string \<Rightarrow> error + lockfile" where
  "fromToml parseToml toml =
     (case parseToml toml of Inl e \<Rightarrow> Inl e | Inr parsed \<Rightarrow> fromParsed parsed)"

subsection \<open>Writing\<close>

definition toDependencyId ::
  "(string \<Rightarrow> string \<Rightarrow> bool) \<Rightarrow> dependency \<Rightarrow> registration list \<Rightarrow> error + string" where
  "toDependencyId accepts dependency packages =
     (case getRegistration accepts packages dependency of
        None \<Rightarrow> Inl NoPackageFound
      | Some registration \<Rightarrow>
          Inr (dep_name dependency @ '' '' @ reg_version registration @ '' ''
               @ reg_source registration))"

definition prepareManifest ::
  "(string \<Rightarrow> string \<Rightarrow> bool) \<Rightarrow> snapshot \<Rightarrow> registration list \<Rightarrow> error + toml_manifest" where
  "prepareManifest accepts manifest packages =
     (case map_result (\<lambda>dependency. toDependencyId accepts dependency packages)
             (snap_dependencies manifest) of
        Inl e \<Rightarrow> Inl e
      | Inr dependencies \<Rightarrow>
          Inr \<lparr>tm_name = Some (snap_name manifest), tm_version = Some (snap_version manifest),
               tm_dependencies = Some dependencies\<rparr>)"

definition preparePackage ::
  "(string \<Rightarrow> string \<Rightarrow> bool) \<Rightarrow> registration list \<Rightarrow> registration \<Rightarrow> error + toml_package" where
  "preparePackage accepts packages registration =
     (case map_result (\<lambda>dependency. toDependencyId accepts dependency packages)
             (reg_dependencies registration) of
        Inl e \<Rightarrow> Inl e
      | Inr dependencies \<Rightarrow>
          Inr \<lparr>tp_name = Some (reg_name registration),
               tp_version = Some (reg_version registration),
               tp_source = Some (reg_source registration),
               tp_dependencies = Some dependencies\<rparr>)"

text \<open>The object that \<open>toToml\<close> hands to the TOML writer.\<close>

definition toDocument :: "(string \<Rightarrow> string \<Rightarrow> bool) \<Rightarrow> lockfile \<Rightarrow> error + toml_document" where
  "toDocument accepts lockfile =
     (case prepareManifest accepts (ws_root (lf_workspace lockfile)) (lf_packages lockfile) of
        Inl e \<Rightarrow> Inl e
      | Inr root \<Rightarrow>
         (case map_result (\<lambda>member. prepareManifest accepts member (lf_packages lockfile))
                 (ws_members (lf_workspace lockfile)) of
            Inl e \<Rightarrow> Inl e
          | Inr members \<Rightarrow>
             (case map_result (preparePackage accepts (lf_packages lockfile))
                     (lf_packages lockfile) of
                Inl e \<Rightarrow> Inl e
              | Inr packages \<Rightarrow>
                  Inr \<lparr>doc_root = Some root, doc_members = Some members,
                       doc_packages = Some packages\<rparr>)))"

definition toToml ::
  "(toml_document \<Rightarrow> string) \<Rightarrow> (string \<Rightarrow> string \<Rightarrow> bool) \<Rightarrow> lockfile \<Rightarrow> error + string" where
  "toToml convertToToml accepts lockfile =
     (case toDocument accepts lockfile of
        Inl e \<Rightarrow> Inl e
      | Inr document \<Rightarrow> Inr (convertToToml document))"

subsection \<open>Reading the lockfile of a directory\<close>

text \<open>
  \<open>try { ... } catch (err) { ... }\<close>: an error of the body goes to the handler.
  \<open>join\<close>, \<open>pathExists\<close> and \<open>readFile\<close> are library functions that may fail.
\<close>

definition try_catch :: "error + 'a \<Rightarrow> (error \<Rightarrow> error + 'a) \<Rightarrow> error + 'a" where
  "try_catch body handler = (case body of Inl err \<Rightarrow> handler err | Inr v \<Rightarrow> Inr v)"

definition readLockfile ::
  "(segment list \<Rightarrow> error + string) \<Rightarrow> (string \<Rightarrow> error + bool) \<Rightarrow> (string \<Rightarrow> error + string)
     \<Rightarrow> (string \<Rightarrow> error + toml_document) \<Rightarrow> string \<Rightarrow> error + lockfile option" where
  "readLockfile join pathExists readFile parseToml dir =
     try_catch
       (case join [Str dir, Str ''vba-block.lock''] of
          Inl e \<Rightarrow> Inl e
        | Inr file \<Rightarrow>
           (case pathExists file of
              Inl e \<Rightarrow> Inl e
            | Inr present \<Rightarrow>
                if \<not> present then Inr None
                else (case readFile file of
                        Inl e \<Rightarrow> Inl e
                      | Inr toml \<Rightarrow>
                         (case fromToml parseToml toml of
                            Inl e \<Rightarrow> Inl e
                          | Inr lockfile \<Rightarrow> Inr (Some lockfile)))))
       (\<lambda>err. Inr None)"

section \<open>Registry source\<close>

subsection \<open>The outside world\<close>

text \<open>
  \<open>update\<close> and \<open>fetch\<close> act on the file system, on git and on the network through
  library calls. The world holds the paths that exist, with the contents of the files,
  and the calls made so far in order. What the outside decides is gathered in an
  environment: which calls fail and with which error, what a URL serves, the checksum
  of a content, the name a new temporary file gets, and the path functions
  \<open>dirname\<close>, \<open>basename\<close> and \<open>join\<close>.
\<close>

datatype action =
    EnsureDir string
  | Clone string string string
  | Pull string
  | TmpFile
  | Download string string
  | Checksum string
  | Move string string
  | Extract string string

record world =
  files :: "string \<rightharpoonup> string"
  trace :: "action list"

record environment =
  failure :: "action \<Rightarrow> error option"
  remote_content :: "string \<Rightarrow> string"
  digest :: "string \<Rightarrow> string"
  tmp_path :: "(string \<rightharpoonup> string) \<Rightarrow> string"
  dirname :: "string \<Rightarrow> string"
  basename :: "string \<Rightarrow> string"
  path_join :: "string \<Rightarrow> string \<Rightarrow> string"

text \<open>\<open>await\<close> in sequence: an error ends the function, the world stays as it is then.\<close>

definition and_then ::
  "(world \<Rightarrow> (error + 'a) \<times> world) \<Rightarrow> ('a \<Rightarrow> world \<Rightarrow> (error + 'b) \<times> world)
     \<Rightarrow> world \<Rightarrow> (error + 'b) \<times> world" where
  "and_then m f w = (case m w of (Inl e, w') \<Rightarrow> (Inl e, w') | (Inr v, w') \<Rightarrow> f v w')"

definition succeed :: "'a \<Rightarrow> world \<Rightarrow> (error + 'a) \<times> world" where
  "succeed v w = (Inr v, w)"

definition throw :: "error \<Rightarrow> world \<Rightarrow> (error + 'a) \<times> world" where
  "throw e w = (Inl e, w)"

text \<open>
  A library call is recorded. If the environment makes it fail it raises that error and
  changes nothing; otherwise it has its effect, which may itself fail.
\<close>

definition call ::
  "environment \<Rightarrow> action \<Rightarrow> (world \<Rightarrow> (error + 'a) \<times> world) \<Rightarrow> world \<Rightarrow> (error + 'a) \<times> world" where
  "call env a effect w =
     (let w' = w\<lparr>trace := trace w @ [a]\<rparr> in
      case failure env a of Some e \<Rightarrow> (Inl e, w') | None \<Rightarrow> effect w')"

definition exists_path :: "string \<Rightarrow> world \<Rightarrow> (error + bool) \<times> world" where
  "exists_path p w = (Inr (p \<in> dom (files w)), w)"

definition ensureDir :: "environment \<Rightarrow> string \<Rightarrow> world \<Rightarrow> (error + unit) \<times> world" where
  "ensureDir env d =
     call env (EnsureDir d)
       (\<lambda>w. (Inr (), if d \<in> dom (files w) then w else w\<lparr>files := (files w)(d \<mapsto> [])\<rparr>))"

definition clone ::
  "environment \<Rightarrow> string \<Rightarrow> string \<Rightarrow> string \<Rightarrow> world \<Rightarrow> (error + unit) \<times> world" where
  "clone env remote name dir =
     call env (Clone remote name dir)
       (\<lambda>w. (Inr (), w\<lparr>files := (files w)(path_join env dir name \<mapsto> [])\<rparr>))"

definition pull :: "environment \<Rightarrow> string \<Rightarrow> world \<Rightarrow> (error + unit) \<times> world" where
  "pull env local = call env (Pull local) (succeed ())"

definition tmpFile :: "environment \<Rightarrow> world \<Rightarrow> (error + string) \<times> world" where
  "tmpFile env =
     call env TmpFile
       (\<lambda>w. let p = tmp_path env (files w) in
             if p \<in> dom (files w) then (Inl (Thrown ''EEXIST''), w)
             else (Inr p, w\<lparr>files := (files w)(p \<mapsto> [])\<rparr>))"

definition download ::
  "environment \<Rightarrow> string \<Rightarrow> string \<Rightarrow> world \<Rightarrow> (error + unit) \<times> world" where
  "download env url dest =
     call env (Download url dest)
       (\<lambda>w. (Inr (), w\<lparr>files := (files w)(dest \<mapsto> remote_content env url)\<rparr>))"

definition getChecksum :: "environment \<Rightarrow> string \<Rightarrow> world \<Rightarrow> (error + string) \<times> world" where
  "getChecksum env p =
     call env (Checksum p)
       (\<lambda>w. case files w p of
               None \<Rightarrow> (Inl (Thrown ''ENOENT''), w)
             | Some content \<Rightarrow> (Inr (digest env content), w))"

definition move :: "environment \<Rightarrow> string \<Rightarrow> string \<Rightarrow> world \<Rightarrow> (error + unit) \<times> world" where
  "move env src dest =
     call env (Move src dest)
       (\<lambda>w. case files w src of
               None \<Rightarrow> (Inl (Thrown ''ENOENT''), w)
             | Some content \<Rightarrow>
                 if dest \<in> dom (files w) then (Inl (Thrown ''dest already exists''), w)
                 else (Inr (), w\<lparr>files := ((files w)(src := None))(dest \<mapsto> content)\<rparr>))"

definition extract_archive :: "environment \<Rightarrow> string \<Rightarrow> string \<Rightarrow> world \<Rightarrow> (error + unit) \<times> world" where
  "extract_archive env archive cwd = call env (Extract archive cwd) (succeed ())"

subsection \<open>\<open>update\<close>\<close>

definition update :: "environment \<Rightarrow> config \<Rightarrow> world \<Rightarrow> (error + unit) \<times> world" where
  "update env cfg =
     (let local = registry_local cfg; remote = registry_remote cfg in
      and_then (exists_path local) (\<lambda>present.
      and_then (if \<not> present then
                  (let dir = dirname env local in
                   and_then (ensureDir env dir) (\<lambda>_.
                   clone env remote (basename env local) dir))
                else succeed ()) (\<lambda>_.
      pull env local)))"

subsection \<open>\<open>fetch\<close>\<close>

text \<open>
  The second element of \<open>source.split('#', 2)\<close>: the text between the first and the
  second \<open>#\<close>, and \<open>undefined\<close> for a source without \<open>#\<close>.
\<close>

definition source_checksum :: "string \<Rightarrow> string option" where
  "source_checksum source =
     (case dropWhile (\<lambda>c. c \<noteq> CHR ''#'') source of
        [] \<Rightarrow> None
      | _ # rest \<Rightarrow> Some (takeWhile (\<lambda>c. c \<noteq> CHR ''#'') rest))"

definition fetch :: "environment \<Rightarrow> config \<Rightarrow> registration \<Rightarrow> world \<Rightarrow> (error + string) \<times> world" where
  "fetch env cfg registration =
     (let url = resolveRemotePackage cfg registration;
          archive = resolveLocalPackage cfg registration;
          checksum = source_checksum (reg_source registration) in
      and_then (exists_path archive) (\<lambda>present.
      and_then (if \<not> present then
                  and_then (tmpFile env) (\<lambda>unverifiedFile.
                  and_then (download env url unverifiedFile) (\<lambda>_.
                  and_then (getChecksum env unverifiedFile) (\<lambda>comparison.
                  if Some comparison \<noteq> checksum then
                    throw (InvalidChecksum (reg_name registration) (reg_version registration))
                  else move env unverifiedFile archive)))
                else succeed ()) (\<lambda>_.
      (let src = resolveSource cfg registration in
       and_then (ensureDir env src) (\<lambda>_.
       and_then (extract_archive env archive src) (\<lambda>_.
       succeed src))))))"

subsection \<open>\<open>resolve\<close>\<close>

text \<open>
  A line of the index, parsed: the fields that the \<open>line\<close> listener reads. The JSON
  parser is a parameter \<open>JSON_parse\<close>, which fails on a line that is not valid JSON.
\<close>

record index_dep =
  idep_name :: string
  idep_req :: string
  idep_features :: "json option"
  idep_optional :: "bool option"
  idep_default_features :: "bool option"

record index_record =
  ir_name :: string
  ir_vers :: string
  ir_deps :: "index_dep list"
  ir_cksum :: string
  ir_features :: "json option"
  ir_yanked :: "bool option"

text \<open>The \<open>line\<close> listener: it pushes onto \<open>registrations\<close>, or throws.\<close>

definition on_line ::
  "(string \<Rightarrow> error + index_record) \<Rightarrow> registration list \<Rightarrow> string \<Rightarrow> error + registration list" where
  "on_line JSON_parse registrations line =
     (case JSON_parse line of
        Inl e \<Rightarrow> Inl e
      | Inr r \<Rightarrow>
          if ir_yanked r = Some True then Inr registrations
          else Inr (registrations @
            [\<lparr>reg_id = None, reg_name = ir_name r, reg_version = ir_vers r,
              reg_source = ''registry+https://github.com/vba-blocks/registry#'' @ ir_cksum r,
              reg_features = ir_features r,
              reg_dependencies =
                map (\<lambda>d. \<lparr>dep_name = idep_name d, dep_version = idep_req d,
                          dep_source = None, dep_features = idep_features d,
                          dep_optional = idep_optional d,
                          dep_default_features = idep_default_features d\<rparr>)
                    (ir_deps r)\<rparr>]))"

text \<open>
  The reader emits \<open>line\<close>, \<open>close\<close> and \<open>error\<close> events. \<open>close\<close> resolves the
  promise with the registrations pushed so far, \<open>error\<close> rejects it. An exception that
  leaves the \<open>line\<close> listener is caught by no one: it ends the read, and the promise is
  not resolved. A reader that stops without \<open>close\<close> or \<open>error\<close> leaves the promise
  pending.
\<close>

datatype reader_event = Line string | Close | Error error

datatype 'a outcome = Resolved 'a | Rejected error | Uncaught error | Pending

fun run_reader ::
  "(string \<Rightarrow> error + index_record) \<Rightarrow> registration list \<Rightarrow> reader_event list
     \<Rightarrow> registration list outcome" where
  "run_reader JSON_parse registrations [] = Pending"
| "run_reader JSON_parse registrations (Line line # events) =
     (case on_line JSON_parse registrations line of
        Inl e \<Rightarrow> Uncaught e
      | Inr registrations' \<Rightarrow> run_reader JSON_parse registrations' events)"
| "run_reader JSON_parse registrations (Close # events) = Resolved registrations"
| "run_reader JSON_parse registrations (Error e # events) = Rejected e"

text \<open>
  \<open>path.join\<close> accepts strings only: for an argument that is not a string it throws a
  \<open>TypeError\<close>. What it makes of strings is left to the parameter \<open>join\<close>.
\<close>

fun segment_strings :: "segment list \<Rightarrow> string list option" where
  "segment_strings [] = Some []"
| "segment_strings (Str s # rest) = map_option ((#) s) (segment_strings rest)"
| "segment_strings (Num n # rest) = None"

definition join_checked :: "(string list \<Rightarrow> error + string) \<Rightarrow> segment list \<Rightarrow> error + string" where
  "join_checked join segments =
     (case segment_strings segments of
        None \<Rightarrow> Inl (Thrown ''TypeError'')
      | Some parts \<Rightarrow> join parts)"

text \<open>
  \<open>getPath\<close> is called inside the executor of the promise, so an exception of
  \<open>path.join\<close> there rejects the promise before the file is opened.
  \<open>read_events\<close> gives the events of the reader on the file at a path.
\<close>

definition resolve ::
  "(string \<Rightarrow> error + index_record) \<Rightarrow> (string \<Rightarrow> reader_event list)
     \<Rightarrow> (string list \<Rightarrow> error + string) \<Rightarrow> config \<Rightarrow> dependency
     \<Rightarrow> registration list outcome" where
  "resolve JSON_parse read_events join cfg dependency =
     (case getPath (join_checked join) cfg (dep_name dependency) of
        Inl e \<Rightarrow> Rejected e
      | Inr path \<Rightarrow> run_reader JSON_parse [] (read_events path))"

subsection \<open>Notions used to state the codec's properties\<close>

text \<open>Every dependency-id string of a document: of its packages, its root, its members.\<close>

definition dependency_ids :: "toml_document \<Rightarrow> string list" where
  "dependency_ids parsed =
     concat (map (\<lambda>v. or_empty (tp_dependencies v)) (or_empty (doc_packages parsed)))
     @ (case doc_root parsed of None \<Rightarrow> [] | Some r \<Rightarrow> or_empty (tm_dependencies r))
     @ concat (map (\<lambda>v. or_empty (tm_dependencies v)) (or_empty (doc_members parsed)))"

text \<open>Every dependency of a lockfile: of its root, its members, its packages.\<close>

definition lockfile_dependencies :: "lockfile \<Rightarrow> dependency list" where
  "lockfile_dependencies lockfile =
     snap_dependencies (ws_root (lf_workspace lockfile))
     @ concat (map snap_dependencies (ws_members (lf_workspace lockfile)))
     @ concat (map reg_dependencies (lf_packages lockfile))"

text \<open>A complete graph: the lookup finds a registration for every dependency.\<close>

definition complete :: "(string \<Rightarrow> string \<Rightarrow> bool) \<Rightarrow> lockfile \<Rightarrow> bool" where
  "complete accepts lockfile \<longleftrightarrow>
     (\<forall>d \<in> set (lockfile_dependencies lockfile).
        getRegistration accepts (lf_packages lockfile) d \<noteq> None)"

text \<open>
  The TOML writer and parser agree on a document: the text written for it parses, and
  parses to the same root, members and packages (an empty array may come back as a
  missing key).
\<close>

definition reads_back ::
  "(string \<Rightarrow> error + toml_document) \<Rightarrow> (toml_document \<Rightarrow> string) \<Rightarrow> toml_document \<Rightarrow> bool" where
  "reads_back parseToml convertToToml document \<longleftrightarrow>
     (case parseToml (convertToToml document) of
        Inl e \<Rightarrow> False
      | Inr parsed \<Rightarrow>
          doc_root parsed = doc_root document \<and>
          or_empty (doc_members parsed) = or_empty (doc_members document) \<and>
          or_empty (doc_packages parsed) = or_empty (doc_packages document))"

subsection \<open>Example values\<close>

text \<open>
  A version test for the examples: a constraint accepts exactly the version it spells
  out. It stands in for the semver test where a parameter needs a value.
\<close>

definition exact_version :: "string \<Rightarrow> string \<Rightarrow> bool" where
  "exact_version constraint version \<longleftrightarrow> constraint = version"

definition exact_satisfies :: "(dependency, dependency_field) found \<Rightarrow> dependency \<Rightarrow> bool" where
  "exact_satisfies current locked =
     (case current of
        Entry c \<Rightarrow> exact_version (dep_version c) (dep_version locked)
      | Inherited v \<Rightarrow> False)"

definition dep :: "string \<Rightarrow> string \<Rightarrow> dependency" where
  "dep n v = \<lparr>dep_name = n, dep_version = v, dep_source = None, dep_features = None,
     dep_optional = None, dep_default_features = None\<rparr>"

definition snap :: "string \<Rightarrow> string \<Rightarrow> dependency list \<Rightarrow> snapshot" where
  "snap n v ds = \<lparr>snap_name = n, snap_version = v, snap_dependencies = ds\<rparr>"

definition reg :: "string \<Rightarrow> string \<Rightarrow> string \<Rightarrow> dependency list \<Rightarrow> registration" where
  "reg n v s ds = \<lparr>reg_id = Some (n @ ''@'' @ v), reg_name = n, reg_version = v,
     reg_source = s, reg_features = None, reg_dependencies = ds\<rparr>"

definition manifest_table :: "string \<Rightarrow> string \<Rightarrow> string list \<Rightarrow> toml_manifest" where
  "manifest_table n v ids = \<lparr>tm_name = Some n, tm_version = Some v, tm_dependencies = Some ids\<rparr>"

definition package_table :: "string \<Rightarrow> string \<Rightarrow> string \<Rightarrow> string list \<Rightarrow> toml_package" where
  "package_table n v s ids =
     \<lparr>tp_name = Some n, tp_version = Some v, tp_source = Some s, tp_dependencies = Some ids\<rparr>"

definition stand_in :: "string \<Rightarrow> string \<Rightarrow> string \<Rightarrow> dependency" where
  "stand_in n v s = \<lparr>dep_name = n, dep_version = v, dep_source = Some s, dep_features = None,
     dep_optional = None, dep_default_features = None\<rparr>"

definition lock :: "snapshot \<Rightarrow> snapshot list \<Rightarrow> registration list \<Rightarrow> lockfile" where
  "lock r ms ps = \<lparr>lf_workspace = \<lparr>ws_root = r, ws_members = ms\<rparr>, lf_packages = ps\<rparr>"

text \<open>
  A workspace \<open>r\<close> with a member \<open>m\<close> and the packages \<open>a\<close> and \<open>b\<close>: the lockfile,
  the TOML document that is written for it, and the lockfile that is loaded from the
  document.
\<close>

definition example_lockfile :: lockfile where
  "example_lockfile =
     lock (snap ''r'' ''1.0.0'' [dep ''a'' ''1.0.0''])
       [snap ''m'' ''0.1.0'' [dep ''b'' ''2.0.0'']]
       [reg ''a'' ''1.0.0'' ''registry+x#c1'' [dep ''b'' ''2.0.0''],
        reg ''b'' ''2.0.0'' ''registry+x#c2'' []]"

definition example_document :: toml_document where
  "example_document =
     \<lparr>doc_root = Some (manifest_table ''r'' ''1.0.0'' [''a 1.0.0 registry+x#c1'']),
      doc_members = Some [manifest_table ''m'' ''0.1.0'' [''b 2.0.0 registry+x#c2'']],
      doc_packages = Some
        [package_table ''a'' ''1.0.0'' ''registry+x#c1'' [''b 2.0.0 registry+x#c2''],
         package_table ''b'' ''2.0.0'' ''registry+x#c2'' []]\<rparr>"

definition example_loaded :: lockfile where
  "example_loaded =
     lock (snap ''r'' ''1.0.0'' [stand_in ''a'' ''1.0.0'' ''registry+x#c1''])
       [snap ''m'' ''0.1.0'' [stand_in ''b'' ''2.0.0'' ''registry+x#c2'']]
       [reg ''a'' ''1.0.0'' ''registry+x#c1'' [stand_in ''b'' ''2.0.0'' ''registry+x#c2''],
        reg ''b'' ''2.0.0'' ''registry+x#c2'' []]"

definition example_byName :: "string \<rightharpoonup> dependency" where
  "example_byName =
     [''a'' \<mapsto> stand_in ''a'' ''1.0.0'' ''registry+x#c1'',
      ''b'' \<mapsto> stand_in ''b'' ''2.0.0'' ''registry+x#c2'']"

text \<open>
  A lockfile whose package name holds a space, one whose package has an empty source,
  and one whose root has an empty version, each with the document written for it.
\<close>

definition spaced_lockfile :: lockfile where
  "spaced_lockfile =
     lock (snap ''r'' ''1.0.0'' [dep ''my lib'' ''1.0.0'']) []
       [reg ''my lib'' ''1.0.0'' ''registry+x#c1'' []]"

definition spaced_document :: toml_document where
  "spaced_document =
     \<lparr>doc_root = Some (manifest_table ''r'' ''1.0.0'' [''my lib 1.0.0 registry+x#c1'']),
      doc_members = Some [],
      doc_packages = Some [package_table ''my lib'' ''1.0.0'' ''registry+x#c1'' []]\<rparr>"

definition sourceless_lockfile :: lockfile where
  "sourceless_lockfile = lock (snap ''r'' ''1.0.0'' []) [] [reg ''a'' ''1.0.0'' [] []]"

definition versionless_lockfile :: lockfile where
  "versionless_lockfile = lock (snap ''r'' [] []) [] []"

definition versionless_document :: toml_document where
  "versionless_document =
     \<lparr>doc_root = Some (manifest_table ''r'' [] []), doc_members = Some [],
      doc_packages = Some []\<rparr>"

definition sourceless_document :: toml_document where
  "sourceless_document =
     \<lparr>doc_root = Some (manifest_table ''r'' ''1.0.0'' []),
      doc_members = Some [],
      doc_packages = Some [package_table ''a'' ''1.0.0'' [] []]\<rparr>"

text \<open>
  A configuration, an environment in which no call fails, and one in which the clone
  fails. The archive served has the checksum \<open>beefdead\<close>.
\<close>

definition example_config :: config where
  "example_config =
     \<lparr>registry_local = ''/cache/registry'',
      registry_remote = ''https://github.com/vba-blocks/registry'',
      resolveRemotePackage = (\<lambda>r. ''https://packages/'' @ reg_name r @ ''-v'' @ reg_version r),
      resolveLocalPackage = (\<lambda>r. ''/cache/packages/'' @ reg_name r @ ''-v'' @ reg_version r),
      resolveSource = (\<lambda>r. ''/cache/sources/'' @ reg_name r @ ''-v'' @ reg_version r)\<rparr>"

definition example_env :: environment where
  "example_env =
     \<lparr>failure = (\<lambda>a. None),
      remote_content = (\<lambda>url. ''archive bytes''),
      digest = (\<lambda>content. ''beefdead''),
      tmp_path = (\<lambda>fs. ''/tmp/tmp-1''),
      dirname = (\<lambda>p. ''/cache''),
      basename = (\<lambda>p. ''registry''),
      path_join = (\<lambda>d n. d @ ''/'' @ n)\<rparr>"

definition unreachable_env :: environment where
  "unreachable_env =
     example_env\<lparr>failure := (\<lambda>a. case a of Clone r n d \<Rightarrow> Some (Thrown ''unreachable'')
                                   | _ \<Rightarrow> None)\<rparr>"

definition empty_world :: world where
  "empty_world = \<lparr>files = Map.empty, trace = []\<rparr>"

text \<open>Joining strings that need no normalising.\<close>

fun slash_join :: "string list \<Rightarrow> string" where
  "slash_join [] = []"
| "slash_join [s] = s"
| "slash_join (s # rest) = s @ ''/'' @ slash_join rest"

definition example_join :: "string list \<Rightarrow> error + string" where
  "example_join parts = Inr (slash_join parts)"

text \<open>An index of two lines, the second one yanked, and a parser for them.\<close>

definition example_record :: index_record where
  "example_record =
     \<lparr>ir_name = ''left-pad'', ir_vers = ''1.0.0'',
      ir_deps = [\<lparr>idep_name = ''a'', idep_req = ''^1.0.0'', idep_features = None,
                  idep_optional = Some False, idep_default_features = Some True\<rparr>],
      ir_cksum = ''abc123'', ir_features = None, ir_yanked = Some False\<rparr>"

definition example_parse :: "string \<Rightarrow> error + index_record" where
  "example_parse line =
     (if line = ''{name:left-pad,vers:1.0.0,...,yanked:false}'' then Inr example_record
      else if line = ''{name:left-pad,vers:1.0.1,...,yanked:true}''
      then Inr (example_record\<lparr>ir_vers := ''1.0.1'', ir_yanked := Some True\<rparr>)
      else Inl (Thrown ''SyntaxError''))"

section \<open>Theorems\<close>

subsection \<open>Index paths\<close>

lemma getPath_three:
  "getPath join cfg [a, b, c] = join [Str (registry_local cfg), Num 3, Str [a], Str [a, b, c]]"
  by (simp add: getPath_def getPath_parts_def substring_def)

lemma getPath_longer:
  "getPath join cfg (a # b # c # d # rest) =
     join [Str (registry_local cfg), Str [a, b], Str [c, d], Str (a # b # c # d # rest)]"
  by (simp add: getPath_def getPath_parts_def substring_def)

text \<open>
  C6. The claim places a one-character name at \<open>1/{name}\<close> and a two-character name
  at \<open>2/{name}\<close>. The code joins the name twice for these two lengths: for \<open>a\<close> the
  arguments of \<open>join\<close> are the mirror directory, \<open>1\<close>, \<open>a\<close> and \<open>a\<close> again, and for
  \<open>ab\<close> they are the mirror directory, \<open>2\<close>, \<open>ab\<close> and \<open>ab\<close>. The branches for
  three characters and for longer names pass the directories only and give
  \<open>3/a/abc\<close> and \<open>ab/cd/abcde\<close>.
\<close>

theorem getPath_short_names_repeat_name:
  "getPath join cfg ''a'' = join [Str (registry_local cfg), Num 1, Str ''a'', Str ''a'']
   \<and> getPath join cfg ''ab'' = join [Str (registry_local cfg), Num 2, Str ''ab'', Str ''ab'']
   \<and> getPath join cfg ''abc'' = join [Str (registry_local cfg), Num 3, Str ''a'', Str ''abc'']
   \<and> getPath join cfg ''abcde'' = join [Str (registry_local cfg), Str ''ab'', Str ''cd'', Str ''abcde'']"
  by (simp add: getPath_def getPath_parts_def substring_def)


subsection \<open>Lockfile validity\<close>

lemma index_by_snoc: "index_by key (xs @ [x]) = js_assign (index_by key xs) (key x) x"
  by (simp add: index_by_def)

lemma index_by_prototype: "prototype_entry (index_by key xs) = same_named key xs ''__proto__''"
proof (induction xs rule: rev_induct)
  case Nil
  show ?case by (simp add: index_by_def empty_object_def same_named_def)
next
  case (snoc x xs)
  then show ?case by (simp add: index_by_snoc js_assign_def same_named_def)
qed

lemma index_by_own:
  "n \<noteq> ''__proto__'' \<Longrightarrow> own_properties (index_by key xs) n = same_named key xs n"
proof (induction xs rule: rev_induct)
  case Nil
  show ?case by (simp add: index_by_def empty_object_def same_named_def)
next
  case (snoc x xs)
  then show ?case by (auto simp: index_by_snoc js_assign_def same_named_def)
qed

text \<open>A read finds an entry exactly when an entry of that name was assigned.\<close>

lemma js_get_Entry_iff:
  "js_get properties (index_by key xs) n = Some (Entry c) \<longleftrightarrow> same_named key xs n = Some c"
proof (cases "n = ''__proto__''")
  case True
  then show ?thesis
    by (simp add: js_get_def index_by_prototype split: option.splits)
next
  case False
  then show ?thesis
    by (simp add: js_get_def index_by_own split: option.splits)
qed

lemma same_named_SomeD: "same_named key xs n = Some x \<Longrightarrow> x \<in> set xs \<and> key x = n"
proof -
  assume "same_named key xs n = Some x"
  then have f: "find (\<lambda>x. key x = n) (rev xs) = Some x" by (simp add: same_named_def)
  then obtain i where "i < length (rev xs)" "key (rev xs ! i) = n" "x = rev xs ! i"
    unfolding find_Some_iff by blast
  then have "x \<in> set (rev xs)" "key x = n" using nth_mem by blast+
  then show ?thesis by simp
qed

lemma same_named_None_iff: "same_named key xs n = None \<longleftrightarrow> n \<notin> key ` set xs"
  unfolding same_named_def by (auto simp: find_None_iff)

lemma same_named_case:
  "(case same_named key xs n of None \<Rightarrow> False | Some c \<Rightarrow> P c) \<longleftrightarrow>
     (\<exists>c. same_named key xs n = Some c \<and> c \<in> set xs \<and> key c = n \<and> P c)"
proof (cases "same_named key xs n")
  case None
  then show ?thesis by simp
next
  case (Some c)
  with same_named_SomeD[OF Some] show ?thesis by simp
qed

text \<open>
  Where no current dependency is named \<open>__proto__\<close> and the locked names are free of
  the inherited names, the dictionary of the dependencies is read like a map.
\<close>

lemma js_get_plain:
  assumes "''__proto__'' \<notin> key ` set xs" and "n \<notin> set inherited_names"
  shows "js_get properties (index_by key xs) n = map_option Entry (same_named key xs n)"
proof -
  from assms(1) have "prototype_entry (index_by key xs) = None"
    by (simp add: index_by_prototype same_named_None_iff)
  moreover from assms(2) have "n \<noteq> ''__proto__''" "n \<notin> set object_prototype_keys"
    by (simp_all add: inherited_names_def)
  ultimately show ?thesis
    by (simp add: js_get_def index_by_own split: option.splits)
qed

lemma locked_dependencies_loop_plain:
  assumes "''__proto__'' \<notin> dep_name ` set cs"
    and "\<forall>d \<in> set ds. dep_name d \<notin> set inherited_names"
  shows "locked_dependencies_loop satisfies (index_by dep_name cs) ds \<longleftrightarrow>
     (\<forall>d \<in> set ds. case same_named dep_name cs (dep_name d) of
                      None \<Rightarrow> False | Some c \<Rightarrow> satisfies (Entry c) d)"
  using assms(2)
proof (induction ds)
  case Nil
  show ?case by simp
next
  case (Cons d ds)
  then have n: "dep_name d \<notin> set inherited_names" by simp
  from Cons show ?case
    by (auto simp: js_get_plain[OF assms(1) n] truthy_def split: option.splits)
qed

lemma compareDependencies_plain:
  assumes "''__proto__'' \<notin> dep_name ` set (snap_dependencies c)"
    and "\<forall>d \<in> set (snap_dependencies m). dep_name d \<notin> set inherited_names"
  shows "compareDependencies satisfies (Entry c) m = Inr (dependencies_satisfied satisfies c m)"
  by (simp add: compareDependencies_def dependencies_satisfied_def
      locked_dependencies_loop_plain[OF assms])

lemma compareDependencies_Inherited:
  "compareDependencies satisfies (Inherited v) m = Inl (Thrown ''TypeError'')"
  by (simp add: compareDependencies_def)

text \<open>
  The loop over the locked members returns true exactly when every locked member finds
  an entry and compares true with it: a value that is no entry is falsy or makes the
  comparison throw.
\<close>

lemma locked_members_loop_True_iff:
  "locked_members_loop satisfies (index_by snap_name ws) ms = Inr True \<longleftrightarrow>
     (\<forall>m \<in> set ms. case same_named snap_name ws (snap_name m) of
                      None \<Rightarrow> False
                    | Some c \<Rightarrow> compareDependencies satisfies (Entry c) m = Inr True)"
proof (induction ms)
  case Nil
  show ?case by simp
next
  case (Cons m ms)
  show ?case
  proof (cases "js_get snapshot_property (index_by snap_name ws) (snap_name m)")
    case None
    then have "same_named snap_name ws (snap_name m) = None"
      using js_get_Entry_iff[of snapshot_property snap_name ws "snap_name m"]
      by (cases "same_named snap_name ws (snap_name m)") auto
    with None show ?thesis by simp
  next
    case (Some v)
    show ?thesis
    proof (cases v)
      case (Entry c)
      with Some have s: "same_named snap_name ws (snap_name m) = Some c"
        by (simp add: js_get_Entry_iff)
      show ?thesis
        using Some Entry s Cons.IH
        by (auto simp: truthy_def split: sum.splits)
    next
      case (Inherited f)
      with Some have "same_named snap_name ws (snap_name m) = None"
        using js_get_Entry_iff[of snapshot_property snap_name ws "snap_name m"]
        by (cases "same_named snap_name ws (snap_name m)") auto
      with Some Inherited show ?thesis
        by (simp add: compareDependencies_Inherited)
    qed
  qed
qed

text \<open>
  For dependency names free of the inherited names, \<open>isLockfileValid\<close> returns true
  exactly under the validity rule of the specification.
\<close>

lemma isLockfileValid_plain_names:
  assumes current: "\<forall>s \<in> set (ws_root workspace # ws_members workspace).
                      ''__proto__'' \<notin> dep_name ` set (snap_dependencies s)"
    and locked: "\<forall>s \<in> set (ws_root (lf_workspace lockfile) # ws_members (lf_workspace lockfile)).
                   \<forall>d \<in> set (snap_dependencies s). dep_name d \<notin> set inherited_names"
  shows "isLockfileValid satisfies lockfile workspace = Inr True
           \<longleftrightarrow> lockfile_still_valid satisfies lockfile workspace"
proof -
  have root: "compareDependencies satisfies (Entry (ws_root workspace))
                (ws_root (lf_workspace lockfile))
      = Inr (dependencies_satisfied satisfies (ws_root workspace)
               (ws_root (lf_workspace lockfile)))"
    using current locked by (intro compareDependencies_plain) simp_all
  have member: "compareDependencies satisfies (Entry c) m
      = Inr (dependencies_satisfied satisfies c m)"
    if "c \<in> set (ws_members workspace)" "m \<in> set (ws_members (lf_workspace lockfile))" for c m
    using current locked that by (intro compareDependencies_plain) simp_all
  have members: "(\<forall>m \<in> set (ws_members (lf_workspace lockfile)).
        case same_named snap_name (ws_members workspace) (snap_name m) of
          None \<Rightarrow> False
        | Some c \<Rightarrow> compareDependencies satisfies (Entry c) m = Inr True)
     \<longleftrightarrow> (\<forall>m \<in> set (ws_members (lf_workspace lockfile)).
        case same_named snap_name (ws_members workspace) (snap_name m) of
          None \<Rightarrow> False
        | Some c \<Rightarrow> dependencies_satisfied satisfies c m)"
  proof (rule ball_cong[OF refl])
    fix m assume m: "m \<in> set (ws_members (lf_workspace lockfile))"
    show "(case same_named snap_name (ws_members workspace) (snap_name m) of
          None \<Rightarrow> False
        | Some c \<Rightarrow> compareDependencies satisfies (Entry c) m = Inr True)
      \<longleftrightarrow> (case same_named snap_name (ws_members workspace) (snap_name m) of
          None \<Rightarrow> False
        | Some c \<Rightarrow> dependencies_satisfied satisfies c m)"
    proof (cases "same_named snap_name (ws_members workspace) (snap_name m)")
      case None
      then show ?thesis by simp
    next
      case (Some c)
      from same_named_SomeD[OF Some] have "c \<in> set (ws_members workspace)" by simp
      from member[OF this m] Some show ?thesis by simp
    qed
  qed
  show ?thesis
    unfolding isLockfileValid_def root lockfile_still_valid_def members[symmetric]
      locked_members_loop_True_iff[symmetric]
    by simp
qed

text \<open>
  A lockfile that pins what the workspace asks for is valid; one that pins \<open>1.0.0\<close>
  where the workspace now asks for \<open>^2.0.0\<close> is not.
\<close>

lemma isLockfileValid_examples:
  "isLockfileValid exact_satisfies
     (lock (snap ''r'' ''1.0.0'' [dep ''a'' ''1.0.0''])
        [snap ''m'' ''0.1.0'' [dep ''b'' ''2.0.0'']]
        [reg ''a'' ''1.0.0'' ''registry+x#c1'' [], reg ''b'' ''2.0.0'' ''registry+x#c2'' []])
     \<lparr>ws_root = snap ''r'' ''1.0.0'' [dep ''a'' ''1.0.0''],
      ws_members = [snap ''m'' ''0.1.0'' [dep ''b'' ''2.0.0'']]\<rparr>
     = Inr True"
  "isLockfileValid exact_satisfies
     (lock (snap ''r'' ''1.0.0'' [dep ''a'' ''1.0.0'']) []
        [reg ''a'' ''1.0.0'' ''registry+x#c1'' []])
     \<lparr>ws_root = snap ''r'' ''1.0.0'' [dep ''a'' ''^2.0.0''], ws_members = []\<rparr>
     = Inr False"
  by (simp_all add: isLockfileValid_def compareDependencies_def index_by_def js_assign_def
      js_get_def empty_object_def truthy_def exact_satisfies_def exact_version_def
      lock_def snap_def dep_def reg_def)

text \<open>
  C3. The claim makes a locked dependency whose name no current dependency has a
  reason for \<open>false\<close>. For a locked dependency named \<open>constructor\<close>, with one current
  dependency of another name, \<open>compareDependencies\<close> finds the function
  \<open>Object.prototype.constructor\<close> in its dictionary, hands it to \<open>satisfies\<close> and
  returns the answer of \<open>satisfies\<close>, although no current dependency is named
  \<open>constructor\<close>. For a locked member named \<open>constructor\<close>, with one current member of
  another name, \<open>isLockfileValid\<close> finds the same function and throws a \<open>TypeError\<close>
  on comparing with it, where the rule gives \<open>false\<close>.
\<close>

theorem isLockfileValid_finds_inherited_names:
  "isLockfileValid satisfies
     (lock (snap ''r'' ''1.0.0'' [dep ''constructor'' ''1.0.0'']) [] [])
     \<lparr>ws_root = snap ''r'' ''1.0.0'' [dep ''a'' ''1.0.0''], ws_members = []\<rparr>
     = Inr (satisfies (Inherited (Builtin ''constructor'')) (dep ''constructor'' ''1.0.0''))
   \<and> same_named dep_name [dep ''a'' ''1.0.0''] ''constructor'' = None
   \<and> isLockfileValid satisfies
       (lock (snap ''r'' ''1.0.0'' []) [snap ''constructor'' ''1.0.0'' []] [])
       \<lparr>ws_root = snap ''r'' ''1.0.0'' [], ws_members = [snap ''m'' ''1.0.0'' []]\<rparr>
     = Inl (Thrown ''TypeError'')
   \<and> same_named snap_name [snap ''m'' ''1.0.0'' []] ''constructor'' = None"
  by (simp add: isLockfileValid_def compareDependencies_def index_by_def js_assign_def
      js_get_def empty_object_def truthy_def object_prototype_keys_def same_named_def
      lock_def snap_def dep_def)

text \<open>
  Where no current member is named \<open>__proto__\<close>, \<open>isLockfileValid\<close> reads the
  dependencies of the two roots and the names and dependencies of the members, and
  nothing else.
\<close>

lemma same_named_projection:
  "map_option f (same_named key xs n)
     = map_option snd (find (\<lambda>p. fst p = n) (rev (map (\<lambda>x. (key x, f x)) xs)))"
  by (induction xs rule: rev_induct) (simp_all add: same_named_def)

lemma member_lookup_projection:
  assumes ws: "map (\<lambda>m. (snap_name m, snap_dependencies m)) ws
             = map (\<lambda>m. (snap_name m, snap_dependencies m)) ws'"
    and plain: "''__proto__'' \<notin> snap_name ` set ws"
  shows "(js_get snapshot_property (index_by snap_name ws) n = None
          \<and> js_get snapshot_property (index_by snap_name ws') n = None)
       \<or> (\<exists>v. js_get snapshot_property (index_by snap_name ws) n = Some (Inherited v)
              \<and> js_get snapshot_property (index_by snap_name ws') n = Some (Inherited v))
       \<or> (\<exists>c c'. js_get snapshot_property (index_by snap_name ws) n = Some (Entry c)
              \<and> js_get snapshot_property (index_by snap_name ws') n = Some (Entry c')
              \<and> snap_dependencies c = snap_dependencies c')"
proof -
  from ws have "map fst (map (\<lambda>m. (snap_name m, snap_dependencies m)) ws)
      = map fst (map (\<lambda>m. (snap_name m, snap_dependencies m)) ws')" by simp
  then have names: "map snap_name ws = map snap_name ws'" by (simp add: comp_def)
  then have "snap_name ` set ws = snap_name ` set ws'" by (metis set_map)
  with plain have plain': "''__proto__'' \<notin> snap_name ` set ws'" by simp
  have p: "prototype_entry (index_by snap_name ws) = None"
    "prototype_entry (index_by snap_name ws') = None"
    using plain plain' by (simp_all add: index_by_prototype same_named_None_iff)
  have proj: "map_option snap_dependencies (same_named snap_name ws n)
      = map_option snap_dependencies (same_named snap_name ws' n)"
    by (simp add: same_named_projection ws)
  show ?thesis
  proof (cases "n = ''__proto__''")
    case True
    then show ?thesis by (simp add: js_get_def p)
  next
    case False
    show ?thesis
    proof (cases "same_named snap_name ws n")
      case None
      with proj have "same_named snap_name ws' n = None" by simp
      with None False show ?thesis by (simp add: js_get_def p index_by_own)
    next
      case (Some c)
      with proj obtain c' where "same_named snap_name ws' n = Some c'"
        and "snap_dependencies c = snap_dependencies c'"
        by (cases "same_named snap_name ws' n") auto
      with Some False show ?thesis by (simp add: js_get_def index_by_own)
    qed
  qed
qed

lemma locked_members_projection:
  assumes ws: "map (\<lambda>m. (snap_name m, snap_dependencies m)) ws
             = map (\<lambda>m. (snap_name m, snap_dependencies m)) ws'"
    and plain: "''__proto__'' \<notin> snap_name ` set ws"
    and ms: "map (\<lambda>m. (snap_name m, snap_dependencies m)) ms
           = map (\<lambda>m. (snap_name m, snap_dependencies m)) ms'"
  shows "locked_members_loop satisfies (index_by snap_name ws) ms
       = locked_members_loop satisfies (index_by snap_name ws') ms'"
  using ms
proof (induction ms arbitrary: ms')
  case Nil
  then show ?case by simp
next
  case (Cons m ms)
  then obtain m' ms1 where ms': "ms' = m' # ms1" by auto
  with Cons.prems have nm: "snap_name m' = snap_name m"
    and dm: "snap_dependencies m = snap_dependencies m'"
    and rest: "map (\<lambda>m. (snap_name m, snap_dependencies m)) ms
             = map (\<lambda>m. (snap_name m, snap_dependencies m)) ms1" by auto
  note IH = Cons.IH[OF rest]
  from member_lookup_projection[OF ws plain, of "snap_name m"] show ?case
  proof (elim disjE exE conjE, goal_cases)
    case 1
    then show ?case by (simp add: ms' nm)
  next
    case (2 v)
    then show ?case by (simp add: ms' nm compareDependencies_Inherited)
  next
    case (3 c c')
    have "compareDependencies satisfies (Entry c) m = compareDependencies satisfies (Entry c') m'"
      by (simp add: compareDependencies_def 3(3) dm)
    with 3 IH show ?case by (simp add: ms' nm truthy_def split: sum.splits)
  qed
qed

lemma isLockfileValid_projection:
  assumes "snap_dependencies (ws_root (lf_workspace l)) = snap_dependencies (ws_root (lf_workspace l'))"
    and "snap_dependencies (ws_root w) = snap_dependencies (ws_root w')"
    and lm: "map (\<lambda>m. (snap_name m, snap_dependencies m)) (ws_members (lf_workspace l))
       = map (\<lambda>m. (snap_name m, snap_dependencies m)) (ws_members (lf_workspace l'))"
    and wm: "map (\<lambda>m. (snap_name m, snap_dependencies m)) (ws_members w)
       = map (\<lambda>m. (snap_name m, snap_dependencies m)) (ws_members w')"
    and plain: "''__proto__'' \<notin> snap_name ` set (ws_members w)"
  shows "isLockfileValid satisfies l w = isLockfileValid satisfies l' w'"
proof -
  have r: "compareDependencies satisfies (Entry (ws_root w)) (ws_root (lf_workspace l))
      = compareDependencies satisfies (Entry (ws_root w')) (ws_root (lf_workspace l'))"
    using assms(1,2) by (simp add: compareDependencies_def)
  have n1: "length (ws_members (lf_workspace l)) = length (ws_members (lf_workspace l'))"
    using lm by (rule map_eq_imp_length_eq)
  have n2: "length (ws_members w) = length (ws_members w')"
    using wm by (rule map_eq_imp_length_eq)
  show ?thesis
    by (simp only: isLockfileValid_def r n1 n2 locked_members_projection[OF wm plain lm])
qed

text \<open>
  C10. The claim makes the result independent of the version of every snapshot. A
  workspace member named \<open>__proto__\<close> is not stored under its name: it becomes the
  prototype of the dictionary of the members, and a locked member named \<open>version\<close>
  then finds the version string of that workspace member. Two workspaces that differ
  only in that version give different results: with the empty version
  \<open>isLockfileValid\<close> returns \<open>false\<close>, with the version \<open>1.0.0\<close> it throws a
  \<open>TypeError\<close> on comparing with the string.
\<close>

theorem isLockfileValid_reads_version_of_prototype:
  "isLockfileValid satisfies
     (lock (snap ''r'' ''1.0.0'' []) [snap ''version'' ''0.1.0'' []] [])
     \<lparr>ws_root = snap ''r'' ''1.0.0'' [], ws_members = [snap ''__proto__'' [] []]\<rparr>
     = Inr False
   \<and> isLockfileValid satisfies
       (lock (snap ''r'' ''1.0.0'' []) [snap ''version'' ''0.1.0'' []] [])
       \<lparr>ws_root = snap ''r'' ''1.0.0'' [], ws_members = [snap ''__proto__'' ''1.0.0'' []]\<rparr>
     = Inl (Thrown ''TypeError'')"
  by (simp add: isLockfileValid_def compareDependencies_def index_by_def js_assign_def
      js_get_def empty_object_def truthy_def snapshot_property_def lock_def snap_def)

subsection \<open>Reading the lockfile of a directory\<close>

text \<open>
  C9. \<open>readLockfile\<close> always returns, and never with an error: when the lockfile does
  not exist the result is the absent value (\<open>None\<close>, the source's \<open>null\<close>), and so
  it is when building the path, testing for the file, reading it, or parsing and
  loading it fails. Only a file that loads gives a lockfile.
\<close>

theorem readLockfile_absent_on_any_failure:
  "(\<exists>r. readLockfile join pathExists readFile parseToml dir = Inr r)
   \<and> (join [Str dir, Str ''vba-block.lock''] = Inr lock_path \<longrightarrow> pathExists lock_path = Inr False
        \<longrightarrow> readLockfile join pathExists readFile parseToml dir = Inr None)
   \<and> (join [Str dir, Str ''vba-block.lock''] = Inl e
        \<longrightarrow> readLockfile join pathExists readFile parseToml dir = Inr None)
   \<and> (join [Str dir, Str ''vba-block.lock''] = Inr lock_path \<longrightarrow> pathExists lock_path = Inl e
        \<longrightarrow> readLockfile join pathExists readFile parseToml dir = Inr None)
   \<and> (join [Str dir, Str ''vba-block.lock''] = Inr lock_path \<longrightarrow> pathExists lock_path = Inr True
        \<longrightarrow> readFile lock_path = Inl e
        \<longrightarrow> readLockfile join pathExists readFile parseToml dir = Inr None)
   \<and> (join [Str dir, Str ''vba-block.lock''] = Inr lock_path \<longrightarrow> pathExists lock_path = Inr True
        \<longrightarrow> readFile lock_path = Inr toml \<longrightarrow> fromToml parseToml toml = Inl e
        \<longrightarrow> readLockfile join pathExists readFile parseToml dir = Inr None)
   \<and> (join [Str dir, Str ''vba-block.lock''] = Inr lock_path \<longrightarrow> pathExists lock_path = Inr True
        \<longrightarrow> readFile lock_path = Inr toml \<longrightarrow> fromToml parseToml toml = Inr lockfile
        \<longrightarrow> readLockfile join pathExists readFile parseToml dir = Inr (Some lockfile))"
  by (simp add: readLockfile_def try_catch_def split: sum.splits)

theorem readLockfile_absent_on_any_failure_witness:
  "readLockfile (\<lambda>_. Inr ''proj/vba-block.lock'') (\<lambda>_. Inr False)
      (\<lambda>_. Inr ''[root]'') (\<lambda>_. Inl (Thrown ''SyntaxError'')) ''proj'' = Inr None
   \<and> readLockfile (\<lambda>_. Inl (Thrown ''TypeError'')) (\<lambda>_. Inr True)
      (\<lambda>_. Inr ''[root]'') (\<lambda>_. Inl (Thrown ''SyntaxError'')) ''proj'' = Inr None
   \<and> readLockfile (\<lambda>_. Inr ''proj/vba-block.lock'') (\<lambda>_. Inl (Thrown ''EACCES''))
      (\<lambda>_. Inr ''[root]'') (\<lambda>_. Inl (Thrown ''SyntaxError'')) ''proj'' = Inr None
   \<and> readLockfile (\<lambda>_. Inr ''proj/vba-block.lock'') (\<lambda>_. Inr True)
      (\<lambda>_. Inl (Thrown ''EISDIR'')) (\<lambda>_. Inl (Thrown ''SyntaxError'')) ''proj'' = Inr None
   \<and> readLockfile (\<lambda>_. Inr ''proj/vba-block.lock'') (\<lambda>_. Inr True)
      (\<lambda>_. Inr ''[root'') (\<lambda>_. Inl (Thrown ''SyntaxError'')) ''proj'' = Inr None
   \<and> readLockfile (\<lambda>_. Inr ''proj/vba-block.lock'') (\<lambda>_. Inr True)
      (\<lambda>_. Inr ''[[members]]'')
      (\<lambda>_. Inr \<lparr>doc_root = None, doc_members = Some [], doc_packages = None\<rparr>) ''proj''
      = Inr None
   \<and> readLockfile (\<lambda>_. Inr ''proj/vba-block.lock'') (\<lambda>_. Inr True)
      (\<lambda>_. Inr ''[root] ...'')
      (\<lambda>_. Inr \<lparr>doc_root = Some \<lparr>tm_name = Some ''r'', tm_version = Some ''1.0.0'',
                    tm_dependencies = Some []\<rparr>,
                 doc_members = None, doc_packages = None\<rparr>) ''proj''
      = Inr (Some (lock (snap ''r'' ''1.0.0'' []) [] []))"
proof -
  let ?J = "\<lambda>_::segment list. Inr ''proj/vba-block.lock'' :: error + string"
  let ?T = "\<lambda>_::string. Inr True :: error + bool"
  let ?S = "\<lambda>_::string. Inl (Thrown ''SyntaxError'') :: error + toml_document"
  let ?R = "\<lambda>_::string. Inr ''[root]'' :: error + string"
  have 1: "readLockfile ?J (\<lambda>_. Inr False) ?R ?S ''proj'' = Inr None"
    using readLockfile_absent_on_any_failure
      [where join = ?J and dir = "''proj''" and lock_path = "''proj/vba-block.lock''"
         and pathExists = "\<lambda>_. Inr False" and readFile = ?R and parseToml = ?S]
    by simp
  have 2: "readLockfile (\<lambda>_. Inl (Thrown ''TypeError'')) ?T ?R ?S ''proj'' = Inr None"
    using readLockfile_absent_on_any_failure
      [where join = "\<lambda>_. Inl (Thrown ''TypeError'')" and dir = "''proj''"
         and pathExists = ?T and readFile = ?R and parseToml = ?S
         and e = "Thrown ''TypeError''"]
    by simp
  have 3: "readLockfile ?J (\<lambda>_. Inl (Thrown ''EACCES'')) ?R ?S ''proj'' = Inr None"
    using readLockfile_absent_on_any_failure
      [where join = ?J and dir = "''proj''" and lock_path = "''proj/vba-block.lock''"
         and pathExists = "\<lambda>_. Inl (Thrown ''EACCES'')" and readFile = ?R
         and parseToml = ?S and e = "Thrown ''EACCES''"]
    by simp
  have 4: "readLockfile ?J ?T (\<lambda>_. Inl (Thrown ''EISDIR'')) ?S ''proj'' = Inr None"
    using readLockfile_absent_on_any_failure
      [where join = ?J and dir = "''proj''" and lock_path = "''proj/vba-block.lock''"
         and pathExists = ?T and readFile = "\<lambda>_. Inl (Thrown ''EISDIR'')"
         and parseToml = ?S and e = "Thrown ''EISDIR''"]
    by simp
  have 5: "readLockfile ?J ?T (\<lambda>_. Inr ''[root'') ?S ''proj'' = Inr None"
    using readLockfile_absent_on_any_failure
      [where join = ?J and dir = "''proj''" and lock_path = "''proj/vba-block.lock''"
         and pathExists = ?T and readFile = "\<lambda>_. Inr ''[root''"
         and parseToml = ?S and e = "Thrown ''SyntaxError''" and toml = "''[root''"]
    by (simp add: fromToml_def)
  let ?P = "\<lambda>_::string. Inr \<lparr>doc_root = None, doc_members = Some [], doc_packages = None\<rparr>
              :: error + toml_document"
  have 6: "readLockfile ?J ?T (\<lambda>_. Inr ''[[members]]'') ?P ''proj'' = Inr None"
    using readLockfile_absent_on_any_failure
      [where join = ?J and dir = "''proj''" and lock_path = "''proj/vba-block.lock''"
         and pathExists = ?T and readFile = "\<lambda>_. Inr ''[[members]]''"
         and parseToml = ?P and e = MissingRoot and toml = "''[[members]]''"]
    by (simp add: fromToml_def fromParsed_def)
  let ?Q = "\<lambda>_::string. Inr \<lparr>doc_root = Some \<lparr>tm_name = Some ''r'', tm_version = Some ''1.0.0'',
                    tm_dependencies = Some []\<rparr>,
                 doc_members = None, doc_packages = None\<rparr> :: error + toml_document"
  have 7: "readLockfile ?J ?T (\<lambda>_. Inr ''[root] ...'') ?Q ''proj''
      = Inr (Some (lock (snap ''r'' ''1.0.0'' []) [] []))"
    using readLockfile_absent_on_any_failure
      [where join = ?J and dir = "''proj''" and lock_path = "''proj/vba-block.lock''"
         and pathExists = ?T and readFile = "\<lambda>_. Inr ''[root] ...''"
         and parseToml = ?Q and toml = "''[root] ...''"
         and lockfile = "lock (snap ''r'' ''1.0.0'' []) [] []"]
    by (simp add: fromToml_def fromParsed_def or_empty_def toManifest_def lock_def snap_def)
  from 1 2 3 4 5 6 7 show ?thesis by blast
qed


subsection \<open>Lockfile codec: helper facts\<close>

lemma map_result_Inr_iff: "map_result f xs = Inr ys \<longleftrightarrow> map f xs = map Inr ys"
proof (induction xs arbitrary: ys)
  case Nil
  show ?case by auto
next
  case (Cons x xs)
  show ?case
  proof (cases "f x")
    case (Inl e)
    then show ?thesis by (auto simp: map_eq_Cons_conv)
  next
    case (Inr y)
    show ?thesis
    proof (cases "map_result f xs")
      case (Inl e)
      with Cons.IH have "\<And>zs. map f xs \<noteq> map Inr zs" by auto
      with Inl Inr show ?thesis by (auto simp: map_eq_Cons_conv)
    next
      case r: (Inr zs)
      with Cons.IH[of zs] have m: "map f xs = map Inr zs" by simp
      with Inr r show ?thesis by (auto simp: map_eq_Cons_conv inj_map_eq_map[OF inj_Inr])
    qed
  qed
qed

lemma map_result_Inl_D: "map_result f xs = Inl e \<Longrightarrow> \<exists>x \<in> set xs. f x = Inl e"
  by (induction xs) (auto split: sum.splits)

lemma map_eq_map_iff_list_all2: "map f xs = map g ys \<longleftrightarrow> list_all2 (\<lambda>x y. f x = g y) xs ys"
  by (simp add: list_all2_eq list_all2_map1 list_all2_map2)

lemma map_result_list_all2:
  "map_result f xs = Inr ys \<longleftrightarrow> list_all2 (\<lambda>x y. f x = Inr y) xs ys"
  by (simp add: map_result_Inr_iff map_eq_map_iff_list_all2)

lemma first_pass_eq:
  "first_pass m vs =
     (case map_result load_package vs of
        Inl e \<Rightarrow> Inl e
      | Inr es \<Rightarrow> Inr (es, fold (\<lambda>r byName. byName(pe_name r \<mapsto> toDependency r)) es m))"
  by (induction vs arbitrary: m) (simp_all split: sum.splits)

lemma load_package_Inr_D:
  "load_package v = Inr e \<Longrightarrow>
     tp_name v = Some (pe_name e) \<and> tp_version v = Some (pe_version e) \<and>
     tp_source v = Some (pe_source e) \<and> tp_dependencies v = Some (pe_dependencies e) \<and>
     pe_name e \<noteq> [] \<and> pe_version e \<noteq> [] \<and> pe_source e \<noteq> [] \<and>
     pe_id e = getRegistrationId (pe_name e) (pe_version e)"
  by (auto simp: load_package_def split: option.splits if_splits)

lemma byName_fold_lookup:
  "fold (\<lambda>r byName. byName(pe_name r \<mapsto> toDependency r)) es m n = Some d \<Longrightarrow>
     m n = Some d \<or> (n \<in> pe_name ` set es \<and> dep_name d = n)"
proof (induction es arbitrary: m)
  case Nil
  then show ?case by simp
next
  case (Cons e es)
  from Cons.prems
  have "fold (\<lambda>r byName. byName(pe_name r \<mapsto> toDependency r)) es
          (m(pe_name e \<mapsto> toDependency e)) n = Some d"
    by (simp only: fold.simps o_apply)
  from Cons.IH[OF this] show ?case
    by (auto simp: toDependency_def split: if_splits)
qed

lemma byName_fold_dom:
  "dom (fold (\<lambda>r byName. byName(pe_name r \<mapsto> toDependency r)) es m) = dom m \<union> pe_name ` set es"
  by (induction es arbitrary: m) auto

lemma first_pass_Inr_D:
  assumes "first_pass Map.empty vs = Inr (entries, byName)"
  shows "list_all2 (\<lambda>v e. load_package v = Inr e) vs entries"
    and "dom byName = pe_name ` set entries"
    and "byName n = Some d \<Longrightarrow> dep_name d = n \<and> n \<in> pe_name ` set entries"
proof -
  from assms have m: "map_result load_package vs = Inr entries"
    and b: "byName = fold (\<lambda>r byName. byName(pe_name r \<mapsto> toDependency r)) entries Map.empty"
    by (auto simp: first_pass_eq split: sum.splits)
  from m show "list_all2 (\<lambda>v e. load_package v = Inr e) vs entries"
    by (simp add: map_result_list_all2)
  from b show "dom byName = pe_name ` set entries" by (simp add: byName_fold_dom)
  assume "byName n = Some d"
  with b byName_fold_lookup[of entries Map.empty n d]
  show "dep_name d = n \<and> n \<in> pe_name ` set entries" by simp
qed

lemma getDependency_Inr_iff: "getDependency i m = Inr d \<longleftrightarrow> m (id_name i) = Some d"
  by (simp add: getDependency_def split: option.splits)

lemma getDependency_Inl_iff:
  "getDependency i m = Inl e \<longleftrightarrow> m (id_name i) = None \<and> e = PackageNotFound i"
  by (auto simp: getDependency_def split: option.splits)

lemma hydrate_ids_Inr_iff:
  "map_result (\<lambda>i. getDependency i m) ids = Inr ds \<longleftrightarrow> map (m \<circ> id_name) ids = map Some ds"
  by (simp add: map_result_Inr_iff map_eq_map_iff_list_all2 getDependency_Inr_iff)

lemma hydrate_ids_Inl_D:
  "map_result (\<lambda>i. getDependency i m) ids = Inl e \<Longrightarrow>
     \<exists>i \<in> set ids. m (id_name i) = None \<and> e = PackageNotFound i"
  by (drule map_result_Inl_D) (simp add: getDependency_Inl_iff)

lemma hydrate_Inr_D:
  "hydrate m e = Inr r \<Longrightarrow>
     map (m \<circ> id_name) (pe_dependencies e) = map Some (reg_dependencies r) \<and>
     reg_name r = pe_name e \<and> reg_version r = pe_version e \<and> reg_source r = pe_source e"
  by (auto simp: hydrate_def hydrate_ids_Inr_iff split: sum.splits)

lemma hydrate_Inl_D:
  "hydrate m e = Inl err \<Longrightarrow>
     \<exists>i \<in> set (pe_dependencies e). m (id_name i) = None \<and> err = PackageNotFound i"
  by (auto simp: hydrate_def split: sum.splits dest: hydrate_ids_Inl_D)

lemma toManifest_Inr_D:
  "toManifest v m = Inr s \<Longrightarrow>
     tm_name v = Some (snap_name s) \<and> tm_version v = Some (snap_version s) \<and>
     map (m \<circ> id_name) (or_empty (tm_dependencies v)) = map Some (snap_dependencies s)"
  by (auto simp: toManifest_def or_empty_def hydrate_ids_Inr_iff
      split: option.splits if_splits sum.splits)

lemma toManifest_Inl_D:
  "toManifest v m = Inl e \<Longrightarrow>
     e = InvalidManifest \<or>
     (\<exists>i \<in> set (or_empty (tm_dependencies v)). m (id_name i) = None \<and> e = PackageNotFound i)"
  by (auto simp: toManifest_def or_empty_def
      split: option.splits if_splits sum.splits dest: hydrate_ids_Inl_D)

lemma fromParsed_Inr_D:
  assumes "doc_root parsed = Some root_value"
    and "first_pass Map.empty (or_empty (doc_packages parsed)) = Inr (entries, byName)"
    and "fromParsed parsed = Inr lockfile"
  shows "list_all2 (\<lambda>e r. hydrate byName e = Inr r) entries (lf_packages lockfile)"
    and "toManifest root_value byName = Inr (ws_root (lf_workspace lockfile))"
    and "list_all2 (\<lambda>v s. toManifest v byName = Inr s)
           (or_empty (doc_members parsed)) (ws_members (lf_workspace lockfile))"
  using assms
  by (auto simp: fromParsed_def map_result_list_all2 split: sum.splits)

lemma fromParsed_Inl_D:
  assumes "doc_root parsed = Some root_value"
    and "first_pass Map.empty (or_empty (doc_packages parsed)) = Inr (entries, byName)"
    and "fromParsed parsed = Inl e"
  shows "(\<exists>x \<in> set entries. hydrate byName x = Inl e) \<or> toManifest root_value byName = Inl e
       \<or> (\<exists>v \<in> set (or_empty (doc_members parsed)). toManifest v byName = Inl e)"
  using assms
  by (auto simp: fromParsed_def split: sum.splits dest: map_result_Inl_D)

lemma entries_ids:
  assumes "list_all2 (\<lambda>v e. load_package v = Inr e) vs entries"
  shows "map (\<lambda>v. or_empty (tp_dependencies v)) vs = map pe_dependencies entries"
proof -
  from assms have "list_all2 (\<lambda>v e. or_empty (tp_dependencies v) = pe_dependencies e) vs entries"
    by (rule list_all2_mono) (auto simp: or_empty_def dest: load_package_Inr_D)
  then show ?thesis by (simp add: map_eq_map_iff_list_all2)
qed

lemma dependency_ids_set:
  assumes "doc_root parsed = Some root_value"
    and "first_pass Map.empty (or_empty (doc_packages parsed)) = Inr (entries, byName)"
  shows "set (dependency_ids parsed) =
           (\<Union>e \<in> set entries. set (pe_dependencies e))
           \<union> set (or_empty (tm_dependencies root_value))
           \<union> (\<Union>v \<in> set (or_empty (doc_members parsed)). set (or_empty (tm_dependencies v)))"
proof -
  have "map (\<lambda>v. or_empty (tp_dependencies v)) (or_empty (doc_packages parsed))
      = map pe_dependencies entries"
    using first_pass_Inr_D(1)[OF assms(2)] by (rule entries_ids)
  then show ?thesis
    by (simp add: dependency_ids_def assms(1) Un_assoc)
qed

lemma id_name_prefix:
  "\<exists>rest. dep_id = id_name dep_id @ rest \<and> CHR '' '' \<notin> set (id_name dep_id)
          \<and> (rest = [] \<or> hd rest = CHR '' '')"
proof -
  let ?P = "\<lambda>c. c \<noteq> CHR '' ''"
  have 1: "dep_id = id_name dep_id @ dropWhile ?P dep_id"
    by (simp add: id_name_def)
  have 2: "CHR '' '' \<notin> set (id_name dep_id)"
    unfolding id_name_def using set_takeWhileD[of "CHR '' ''" ?P dep_id] by blast
  have 3: "dropWhile ?P dep_id = [] \<or> hd (dropWhile ?P dep_id) = CHR '' ''"
    using hd_dropWhile[of ?P dep_id] by blast
  from 1 2 3 show ?thesis by blast
qed

lemma list_all2_left_ex: "list_all2 P xs ys \<Longrightarrow> x \<in> set xs \<Longrightarrow> \<exists>y \<in> set ys. P x y"
  by (induction rule: list_all2_induct) auto

lemma resolved_ids_known:
  assumes "map (m \<circ> id_name) ids = map Some ds" and "i \<in> set ids"
  shows "m (id_name i) \<noteq> None"
proof -
  from assms(1) have "(m \<circ> id_name) ` set ids = Some ` set ds" by (metis set_map)
  with assms(2) show ?thesis by force
qed

text \<open>
  C4. With \<open>byName\<close> the map that the first pass builds from the packages (each
  stand-in stored under its package's name): when \<open>fromToml\<close> succeeds, the
  dependencies of every package, of the root and of every member are the values that
  \<open>byName\<close> holds for the names of their id strings, the name being the id up to its
  first space. Two ids with the same name resolve alike whatever follows the name.
  An id whose name is not in the map fails with \<open>PackageNotFound\<close>; a document that
  holds such an id makes \<open>fromToml\<close> fail, with that error unless a malformed
  manifest is met before the id.
\<close>

theorem hydration_resolves_by_name:
  assumes "parseToml toml = Inr parsed"
    and "doc_root parsed = Some root_value"
    and "first_pass Map.empty (or_empty (doc_packages parsed)) = Inr (entries, byName)"
  shows "(\<forall>n d. byName n = Some d \<longrightarrow> dep_name d = n \<and> n \<in> pe_name ` set entries)
    \<and> (\<forall>dep_id. \<exists>rest. dep_id = id_name dep_id @ rest \<and> CHR '' '' \<notin> set (id_name dep_id)
                           \<and> (rest = [] \<or> hd rest = CHR '' ''))
    \<and> (\<forall>lockfile. fromToml parseToml toml = Inr lockfile \<longrightarrow>
          map (map Some \<circ> reg_dependencies) (lf_packages lockfile)
            = map (map (byName \<circ> id_name) \<circ> pe_dependencies) entries
          \<and> map Some (snap_dependencies (ws_root (lf_workspace lockfile)))
            = map (byName \<circ> id_name) (or_empty (tm_dependencies root_value))
          \<and> map (map Some \<circ> snap_dependencies) (ws_members (lf_workspace lockfile))
            = map (map (byName \<circ> id_name) \<circ> or_empty \<circ> tm_dependencies)
                (or_empty (doc_members parsed)))
    \<and> (\<forall>a b. id_name a = id_name b \<longrightarrow> byName (id_name a) \<noteq> None
          \<longrightarrow> getDependency a byName = getDependency b byName)
    \<and> (\<forall>dep_id. byName (id_name dep_id) = None
          \<longrightarrow> getDependency dep_id byName = Inl (PackageNotFound dep_id))
    \<and> ((\<exists>dep_id \<in> set (dependency_ids parsed). byName (id_name dep_id) = None) \<longrightarrow>
          (\<exists>e. fromToml parseToml toml = Inl e \<and>
               (e = InvalidManifest \<or>
                (\<exists>dep_id \<in> set (dependency_ids parsed).
                   byName (id_name dep_id) = None \<and> e = PackageNotFound dep_id))))"
proof -
  note ids = dependency_ids_set[OF assms(2,3)]
  have from_toml: "fromToml parseToml toml = fromParsed parsed"
    by (simp add: fromToml_def assms(1))
  have keyed: "\<forall>n d. byName n = Some d \<longrightarrow> dep_name d = n \<and> n \<in> pe_name ` set entries"
    using first_pass_Inr_D(3)[OF assms(3)] by blast
  have success: "map (map Some \<circ> reg_dependencies) (lf_packages lockfile)
            = map (map (byName \<circ> id_name) \<circ> pe_dependencies) entries
          \<and> map Some (snap_dependencies (ws_root (lf_workspace lockfile)))
            = map (byName \<circ> id_name) (or_empty (tm_dependencies root_value))
          \<and> map (map Some \<circ> snap_dependencies) (ws_members (lf_workspace lockfile))
            = map (map (byName \<circ> id_name) \<circ> or_empty \<circ> tm_dependencies)
                (or_empty (doc_members parsed))"
    if ok: "fromParsed parsed = Inr lockfile" for lockfile
  proof -
    note parts = fromParsed_Inr_D[OF assms(2,3) ok]
    have "list_all2 (\<lambda>e r. (map (byName \<circ> id_name) \<circ> pe_dependencies) e
              = (map Some \<circ> reg_dependencies) r) entries (lf_packages lockfile)"
      using parts(1) by (rule list_all2_mono) (simp add: hydrate_Inr_D)
    then have p: "map (map Some \<circ> reg_dependencies) (lf_packages lockfile)
            = map (map (byName \<circ> id_name) \<circ> pe_dependencies) entries"
      by (simp only: map_eq_map_iff_list_all2[symmetric])
    have r: "map Some (snap_dependencies (ws_root (lf_workspace lockfile)))
            = map (byName \<circ> id_name) (or_empty (tm_dependencies root_value))"
      using toManifest_Inr_D[OF parts(2)] by simp
    have "list_all2 (\<lambda>v s. (map (byName \<circ> id_name) \<circ> or_empty \<circ> tm_dependencies) v
              = (map Some \<circ> snap_dependencies) s)
            (or_empty (doc_members parsed)) (ws_members (lf_workspace lockfile))"
      using parts(3) by (rule list_all2_mono) (simp add: toManifest_Inr_D)
    then have m: "map (map Some \<circ> snap_dependencies) (ws_members (lf_workspace lockfile))
            = map (map (byName \<circ> id_name) \<circ> or_empty \<circ> tm_dependencies)
                (or_empty (doc_members parsed))"
      by (simp only: map_eq_map_iff_list_all2[symmetric])
    from p r m show ?thesis by blast
  qed
  have all_known: "\<forall>i \<in> set (dependency_ids parsed). byName (id_name i) \<noteq> None"
    if ok: "fromParsed parsed = Inr lockfile" for lockfile
  proof
    note parts = fromParsed_Inr_D[OF assms(2,3) ok]
    fix i assume "i \<in> set (dependency_ids parsed)"
    then consider e where "e \<in> set entries" "i \<in> set (pe_dependencies e)"
      | "i \<in> set (or_empty (tm_dependencies root_value))"
      | v where "v \<in> set (or_empty (doc_members parsed))" "i \<in> set (or_empty (tm_dependencies v))"
      unfolding ids by blast
    then show "byName (id_name i) \<noteq> None"
    proof cases
      case 1
      from list_all2_left_ex[OF parts(1) 1(1)] obtain r where "hydrate byName e = Inr r"
        by blast
      from hydrate_Inr_D[OF this, THEN conjunct1] 1(2) show ?thesis
        by (rule resolved_ids_known)
    next
      case 2
      from toManifest_Inr_D[OF parts(2), THEN conjunct2, THEN conjunct2] 2 show ?thesis
        by (rule resolved_ids_known)
    next
      case 3
      from list_all2_left_ex[OF parts(3) 3(1)] obtain s where "toManifest v byName = Inr s"
        by blast
      from toManifest_Inr_D[OF this, THEN conjunct2, THEN conjunct2] 3(2) show ?thesis
        by (rule resolved_ids_known)
    qed
  qed
  have failure: "\<exists>e. fromParsed parsed = Inl e \<and>
               (e = InvalidManifest \<or>
                (\<exists>dep_id \<in> set (dependency_ids parsed).
                   byName (id_name dep_id) = None \<and> e = PackageNotFound dep_id))"
    if missing: "\<exists>dep_id \<in> set (dependency_ids parsed). byName (id_name dep_id) = None"
  proof (cases "fromParsed parsed")
    case (Inr lockfile)
    with all_known[OF Inr] missing show ?thesis by blast
  next
    case (Inl e)
    from fromParsed_Inl_D[OF assms(2,3) Inl]
    have "e = InvalidManifest \<or>
                (\<exists>dep_id \<in> set (dependency_ids parsed).
                   byName (id_name dep_id) = None \<and> e = PackageNotFound dep_id)"
      unfolding ids
      by (auto dest!: hydrate_Inl_D toManifest_Inl_D)
    with Inl show ?thesis by blast
  qed
  have same: "\<forall>a b. id_name a = id_name b \<longrightarrow> byName (id_name a) \<noteq> None
          \<longrightarrow> getDependency a byName = getDependency b byName"
    by (auto simp: getDependency_def)
  have absent: "\<forall>dep_id. byName (id_name dep_id) = None
          \<longrightarrow> getDependency dep_id byName = Inl (PackageNotFound dep_id)"
    by (simp add: getDependency_def)
  show ?thesis
    unfolding from_toml
    using keyed success failure same absent id_name_prefix
    by blast
qed

theorem hydration_resolves_by_name_witness:
  "fromToml (\<lambda>_. Inr example_document) ''[root] ...'' = Inr example_loaded
   \<and> map Some (snap_dependencies (ws_root (lf_workspace example_loaded)))
       = map (example_byName \<circ> id_name) [''a 1.0.0 registry+x#c1'']
   \<and> getDependency ''a 9.9.9 git+elsewhere'' example_byName
       = getDependency ''a 1.0.0 registry+x#c1'' example_byName
   \<and> getDependency ''c 1.0.0 registry+x#c3'' example_byName
       = Inl (PackageNotFound ''c 1.0.0 registry+x#c3'')
   \<and> (\<exists>e. fromToml
          (\<lambda>_. Inr (example_document
             \<lparr>doc_root := Some (manifest_table ''r'' ''1.0.0'' [''c 1.0.0 registry+x#c3''])\<rparr>))
          ''[root] ...'' = Inl e
        \<and> (e = InvalidManifest \<or> e = PackageNotFound ''c 1.0.0 registry+x#c3''))"
proof -
  let ?entries = "[\<lparr>pe_id = ''a@1.0.0'', pe_name = ''a'', pe_version = ''1.0.0'',
                    pe_source = ''registry+x#c1'',
                    pe_dependencies = [''b 2.0.0 registry+x#c2'']\<rparr>,
                  \<lparr>pe_id = ''b@2.0.0'', pe_name = ''b'', pe_version = ''2.0.0'',
                    pe_source = ''registry+x#c2'', pe_dependencies = []\<rparr>]"
  have pass1: "first_pass Map.empty (or_empty (doc_packages example_document))
      = Inr (?entries, example_byName)"
    by (simp add: example_document_def example_byName_def or_empty_def package_table_def
        load_package_def getRegistrationId_def toDependency_def stand_in_def)
  have g: "doc_root example_document
      = Some (manifest_table ''r'' ''1.0.0'' [''a 1.0.0 registry+x#c1''])"
    by (simp add: example_document_def)
  have mem: "or_empty (doc_members example_document)
      = [manifest_table ''m'' ''0.1.0'' [''b 2.0.0 registry+x#c2'']]"
    by (simp add: example_document_def or_empty_def)
  have loaded: "fromToml (\<lambda>_. Inr example_document) ''[root] ...'' = Inr example_loaded"
    by (simp add: fromToml_def fromParsed_def g pass1 mem hydrate_def toManifest_def
        manifest_table_def getDependency_def id_name_def example_byName_def
        example_loaded_def lock_def snap_def reg_def)
  note good = hydration_resolves_by_name
    [where parseToml = "\<lambda>_. Inr example_document" and toml = "''[root] ...''"
       and parsed = example_document
       and root_value = "manifest_table ''r'' ''1.0.0'' [''a 1.0.0 registry+x#c1'']"
       and entries = ?entries and byName = example_byName,
     OF refl _ pass1]
  from good[OF g] loaded
  have 2: "map Some (snap_dependencies (ws_root (lf_workspace example_loaded)))
       = map (example_byName \<circ> id_name) [''a 1.0.0 registry+x#c1'']"
    by (simp add: manifest_table_def or_empty_def)
  have n: "id_name ''a 9.9.9 git+elsewhere'' = id_name ''a 1.0.0 registry+x#c1''"
    "example_byName (id_name ''a 9.9.9 git+elsewhere'') \<noteq> None"
    "example_byName (id_name ''c 1.0.0 registry+x#c3'') = None"
    by (simp_all add: id_name_def example_byName_def)
  from good[OF g] n
  have 3: "getDependency ''a 9.9.9 git+elsewhere'' example_byName
       = getDependency ''a 1.0.0 registry+x#c1'' example_byName"
    and 4: "getDependency ''c 1.0.0 registry+x#c3'' example_byName
       = Inl (PackageNotFound ''c 1.0.0 registry+x#c3'')"
    by blast+
  let ?bad = "example_document
             \<lparr>doc_root := Some (manifest_table ''r'' ''1.0.0'' [''c 1.0.0 registry+x#c3''])\<rparr>"
  have pass1': "first_pass Map.empty (or_empty (doc_packages ?bad))
      = Inr (?entries, example_byName)"
    using pass1 by simp
  have ids: "set (dependency_ids ?bad)
      = {''b 2.0.0 registry+x#c2'', ''c 1.0.0 registry+x#c3''}"
    by (auto simp: dependency_ids_def example_document_def or_empty_def manifest_table_def
        package_table_def)
  have known: "example_byName (id_name ''b 2.0.0 registry+x#c2'') \<noteq> None"
    by (simp add: id_name_def example_byName_def)
  note bad = hydration_resolves_by_name
    [where parseToml = "\<lambda>_. Inr ?bad" and toml = "''[root] ...''" and parsed = ?bad
       and root_value = "manifest_table ''r'' ''1.0.0'' [''c 1.0.0 registry+x#c3'']"
       and entries = ?entries and byName = example_byName,
     OF refl _ pass1']
  have "\<exists>e. fromToml (\<lambda>_. Inr ?bad) ''[root] ...'' = Inl e
        \<and> (e = InvalidManifest \<or> e = PackageNotFound ''c 1.0.0 registry+x#c3'')"
    using bad n(3) known unfolding ids by auto
  with loaded 2 3 4 show ?thesis by blast
qed


lemma map_result_map:
  "(\<And>x. x \<in> set xs \<Longrightarrow> f x = Inr (g x)) \<Longrightarrow> map_result f xs = Inr (map g xs)"
  by (induction xs) simp_all

lemma getRegistration_SomeD:
  "getRegistration accepts g d = Some r \<Longrightarrow> r \<in> set g \<and> reg_name r = dep_name d"
proof -
  assume a: "getRegistration accepts g d = Some r"
  let ?P = "\<lambda>r. reg_name r = dep_name d \<and> accepts (dep_version d) (reg_version r)"
  from a have "filter ?P g = [r]"
    by (auto simp: getRegistration_def split: list.splits)
  then have "r \<in> set (filter ?P g)" by simp
  then show ?thesis by simp
qed

lemma id_name_of_triple:
  "CHR '' '' \<notin> set n \<Longrightarrow> id_name (n @ CHR '' '' # rest) = n"
  by (induction n) (auto simp: id_name_def)

text \<open>
  C1, as amended. For a lockfile with a complete graph in which no dependency name
  holds a space, the names and versions of the root and of the members are not empty
  and the names, versions and sources of the packages are not empty, and for a TOML
  writer and parser that agree on the document of the lockfile: \<open>toToml\<close> gives a
  text, \<open>fromToml\<close> loads that text, and the loaded lockfile has the same root name
  and version, the same member names and versions, the same package names and
  versions, and the same dependency names, in the same order, for the root, for each
  member and for each package.
\<close>

theorem lockfile_round_trip:
  assumes complete: "complete accepts lockfile"
    and no_space: "\<forall>d \<in> set (lockfile_dependencies lockfile). CHR '' '' \<notin> set (dep_name d)"
    and root_ok: "snap_name (ws_root (lf_workspace lockfile)) \<noteq> []
                  \<and> snap_version (ws_root (lf_workspace lockfile)) \<noteq> []"
    and members_ok: "\<forall>m \<in> set (ws_members (lf_workspace lockfile)).
                       snap_name m \<noteq> [] \<and> snap_version m \<noteq> []"
    and packages_ok: "\<forall>r \<in> set (lf_packages lockfile).
                       reg_name r \<noteq> [] \<and> reg_version r \<noteq> [] \<and> reg_source r \<noteq> []"
    and codec: "\<forall>document. toDocument accepts lockfile = Inr document
                  \<longrightarrow> reads_back parseToml convertToToml document"
  shows "\<exists>toml loaded.
     toToml convertToToml accepts lockfile = Inr toml \<and>
     fromToml parseToml toml = Inr loaded \<and>
     snap_name (ws_root (lf_workspace loaded)) = snap_name (ws_root (lf_workspace lockfile)) \<and>
     snap_version (ws_root (lf_workspace loaded))
       = snap_version (ws_root (lf_workspace lockfile)) \<and>
     map snap_name (ws_members (lf_workspace loaded))
       = map snap_name (ws_members (lf_workspace lockfile)) \<and>
     map snap_version (ws_members (lf_workspace loaded))
       = map snap_version (ws_members (lf_workspace lockfile)) \<and>
     map reg_name (lf_packages loaded) = map reg_name (lf_packages lockfile) \<and>
     map reg_version (lf_packages loaded) = map reg_version (lf_packages lockfile) \<and>
     map dep_name (snap_dependencies (ws_root (lf_workspace loaded)))
       = map dep_name (snap_dependencies (ws_root (lf_workspace lockfile))) \<and>
     map (map dep_name \<circ> snap_dependencies) (ws_members (lf_workspace loaded))
       = map (map dep_name \<circ> snap_dependencies) (ws_members (lf_workspace lockfile)) \<and>
     map (map dep_name \<circ> reg_dependencies) (lf_packages loaded)
       = map (map dep_name \<circ> reg_dependencies) (lf_packages lockfile)"
proof -
  define g where "g = lf_packages lockfile"
  define root where "root = ws_root (lf_workspace lockfile)"
  define members where "members = ws_members (lf_workspace lockfile)"
  define all_deps where "all_deps = set (lockfile_dependencies lockfile)"
  define ident where "ident d = dep_name d @ '' '' @ reg_version (the (getRegistration accepts g d))
      @ '' '' @ reg_source (the (getRegistration accepts g d))" for d :: dependency
  define mt where "mt s = \<lparr>tm_name = Some (snap_name s), tm_version = Some (snap_version s),
      tm_dependencies = Some (map ident (snap_dependencies s))\<rparr>" for s :: snapshot
  define pt where "pt r = \<lparr>tp_name = Some (reg_name r), tp_version = Some (reg_version r),
      tp_source = Some (reg_source r), tp_dependencies = Some (map ident (reg_dependencies r))\<rparr>"
    for r :: registration
  define entry where "entry r = \<lparr>pe_id = getRegistrationId (reg_name r) (reg_version r),
      pe_name = reg_name r, pe_version = reg_version r, pe_source = reg_source r,
      pe_dependencies = map ident (reg_dependencies r)\<rparr>" for r :: registration
  define byName where
    "byName = fold (\<lambda>r byName. byName(pe_name r \<mapsto> toDependency r)) (map entry g) Map.empty"
  define res where "res d = the (byName (dep_name d))" for d :: dependency
  define hyd where "hyd r = \<lparr>reg_id = Some (pe_id (entry r)), reg_name = reg_name r,
      reg_version = reg_version r, reg_source = reg_source r, reg_features = None,
      reg_dependencies = map res (reg_dependencies r)\<rparr>" for r :: registration
  define sn where "sn s = \<lparr>snap_name = snap_name s, snap_version = snap_version s,
      snap_dependencies = map res (snap_dependencies s)\<rparr>" for s :: snapshot
  define document where "document =
      \<lparr>doc_root = Some (mt root), doc_members = Some (map mt members),
       doc_packages = Some (map pt g)\<rparr>"

  have in_root: "d \<in> all_deps" if "d \<in> set (snap_dependencies root)" for d
    using that by (simp add: all_deps_def lockfile_dependencies_def root_def)
  have in_member: "d \<in> all_deps" if "m \<in> set members" "d \<in> set (snap_dependencies m)" for d m
    using that by (auto simp: all_deps_def lockfile_dependencies_def members_def)
  have in_package: "d \<in> all_deps" if "r \<in> set g" "d \<in> set (reg_dependencies r)" for d r
    using that by (auto simp: all_deps_def lockfile_dependencies_def g_def)

  have found: "\<exists>r. getRegistration accepts g d = Some r \<and> r \<in> set g \<and> reg_name r = dep_name d"
    if "d \<in> all_deps" for d
  proof -
    from complete that obtain r where r: "getRegistration accepts g d = Some r"
      by (auto simp: complete_def all_deps_def g_def)
    with getRegistration_SomeD[OF r] show ?thesis by blast
  qed
  have to_id: "toDependencyId accepts d g = Inr (ident d)" if "d \<in> all_deps" for d
    using found[OF that] by (auto simp: toDependencyId_def ident_def)
  have name_of_ident: "id_name (ident d) = dep_name d" if "d \<in> all_deps" for d
    using no_space that unfolding ident_def all_deps_def by (simp add: id_name_of_triple)

  have prep_root: "prepareManifest accepts root g = Inr (mt root)"
    unfolding prepareManifest_def mt_def
    by (simp add: map_result_map[where g = ident] to_id in_root)
  have prep_member: "prepareManifest accepts m g = Inr (mt m)" if "m \<in> set members" for m
    unfolding prepareManifest_def mt_def
    by (simp add: map_result_map[where g = ident] to_id in_member[OF that])
  have prep_package: "preparePackage accepts g r = Inr (pt r)" if "r \<in> set g" for r
    unfolding preparePackage_def pt_def
    by (simp add: map_result_map[where g = ident] to_id in_package[OF that])
  have doc: "toDocument accepts lockfile = Inr document"
    unfolding toDocument_def document_def
    using prep_root map_result_map[where g = mt, OF prep_member]
      map_result_map[where g = pt and f = "preparePackage accepts g", OF prep_package]
    by (simp add: g_def[symmetric] root_def[symmetric] members_def[symmetric])
  then have written: "toToml convertToToml accepts lockfile = Inr (convertToToml document)"
    by (simp add: toToml_def)

  from codec doc have "reads_back parseToml convertToToml document" by blast
  then obtain parsed where parsed: "parseToml (convertToToml document) = Inr parsed"
    and p_root: "doc_root parsed = Some (mt root)"
    and p_members: "or_empty (doc_members parsed) = map mt members"
    and p_packages: "or_empty (doc_packages parsed) = map pt g"
    by (auto simp: reads_back_def document_def or_empty_def split: sum.splits)

  have load: "load_package (pt r) = Inr (entry r)" if "r \<in> set g" for r
    using packages_ok that by (simp add: load_package_def pt_def entry_def g_def)
  have "map_result load_package (map pt g) = Inr (map entry g)"
    using map_result_map[where f = "load_package \<circ> pt" and g = entry and xs = g] load
    by (simp add: map_result_Inr_iff)
  then have pass1: "first_pass Map.empty (map pt g) = Inr (map entry g, byName)"
    by (simp add: first_pass_eq byName_def)

  have "pe_name \<circ> entry = reg_name" by (rule ext) (simp add: entry_def)
  then have by_dom: "dom byName = reg_name ` set g"
    unfolding byName_def byName_fold_dom by (simp add: image_comp)
  have by_key: "dep_name d = n" if "byName n = Some d" for n d
    using byName_fold_lookup[of "map entry g" Map.empty n d] that
    by (simp add: byName_def)
  have resolved: "getDependency (ident d) byName = Inr (res d) \<and> dep_name (res d) = dep_name d"
    if "d \<in> all_deps" for d
  proof -
    from found[OF that] have "dep_name d \<in> dom byName" unfolding by_dom by force
    then obtain d' where d': "byName (dep_name d) = Some d'" by blast
    with by_key[OF d'] show ?thesis
      by (simp add: getDependency_def name_of_ident[OF that] res_def)
  qed

  have hydrated: "hydrate byName (entry r) = Inr (hyd r)" if "r \<in> set g" for r
  proof -
    have "map_result (\<lambda>i. getDependency i byName) (map ident (reg_dependencies r))
        = Inr (map res (reg_dependencies r))"
      using map_result_map[where f = "\<lambda>d. getDependency (ident d) byName" and g = res
          and xs = "reg_dependencies r"] resolved in_package[OF that]
      by (simp add: map_result_Inr_iff comp_def)
    then show ?thesis by (simp add: hydrate_def hyd_def entry_def)
  qed
  have manifest: "toManifest (mt s) byName = Inr (sn s)"
    if nonempty: "snap_name s \<noteq> [] \<and> snap_version s \<noteq> []"
      and deps: "\<And>d. d \<in> set (snap_dependencies s) \<Longrightarrow> d \<in> all_deps" for s
  proof -
    have "map_result (\<lambda>i. getDependency i byName) (map ident (snap_dependencies s))
        = Inr (map res (snap_dependencies s))"
      using map_result_map[where f = "\<lambda>d. getDependency (ident d) byName" and g = res
          and xs = "snap_dependencies s"] resolved deps
      by (simp add: map_result_Inr_iff comp_def)
    with nonempty show ?thesis by (simp add: toManifest_def mt_def sn_def)
  qed
  have m_root: "toManifest (mt root) byName = Inr (sn root)"
    using root_ok in_root by (intro manifest) (simp_all add: root_def)
  have m_member: "toManifest (mt m) byName = Inr (sn m)" if "m \<in> set members" for m
    using members_ok that in_member[OF that] by (intro manifest) (simp_all add: members_def)

  define loaded where "loaded =
     \<lparr>lf_workspace = \<lparr>ws_root = sn root, ws_members = map sn members\<rparr>,
      lf_packages = map hyd g\<rparr>"
  have h_all: "map_result (hydrate byName) (map entry g) = Inr (map hyd g)"
    using map_result_map[where f = "hydrate byName \<circ> entry" and g = hyd and xs = g] hydrated
    by (simp add: map_result_Inr_iff)
  have m_all: "map_result (\<lambda>member. toManifest member byName) (map mt members)
      = Inr (map sn members)"
    using map_result_map[where f = "\<lambda>m. toManifest (mt m) byName" and g = sn and xs = members]
      m_member
    by (simp add: map_result_Inr_iff comp_def)
  have "fromParsed parsed = Inr loaded"
    by (simp add: fromParsed_def p_root p_members p_packages pass1 h_all m_root m_all loaded_def)
  with parsed have reloaded: "fromToml parseToml (convertToToml document) = Inr loaded"
    by (simp add: fromToml_def)

  have keep: "dep_name (res d) = dep_name d" if "d \<in> all_deps" for d
    using resolved[OF that] by simp
  have n_root: "map dep_name (snap_dependencies (sn root)) = map dep_name (snap_dependencies root)"
    using keep in_root by (auto simp: sn_def)
  have n_members: "map (map dep_name \<circ> snap_dependencies) (map sn members)
      = map (map dep_name \<circ> snap_dependencies) members"
    using keep in_member by (auto simp: sn_def)
  have n_packages: "map (map dep_name \<circ> reg_dependencies) (map hyd g)
      = map (map dep_name \<circ> reg_dependencies) g"
    using keep in_package by (auto simp: hyd_def)
  have "snap_name (ws_root (lf_workspace loaded)) = snap_name root"
    "snap_version (ws_root (lf_workspace loaded)) = snap_version root"
    "map snap_name (ws_members (lf_workspace loaded)) = map snap_name members"
    "map snap_version (ws_members (lf_workspace loaded)) = map snap_version members"
    "map reg_name (lf_packages loaded) = map reg_name g"
    "map reg_version (lf_packages loaded) = map reg_version g"
    by (simp_all add: loaded_def sn_def hyd_def comp_def)
  moreover have "snap_dependencies (ws_root (lf_workspace loaded)) = snap_dependencies (sn root)"
    "ws_members (lf_workspace loaded) = map sn members" "lf_packages loaded = map hyd g"
    by (simp_all add: loaded_def)
  ultimately show ?thesis
    using written reloaded n_root n_members n_packages
    unfolding g_def root_def members_def
    by (intro exI[of _ "convertToToml document"] exI[of _ loaded]) simp
qed

theorem lockfile_round_trip_witness:
  "complete exact_version example_lockfile
   \<and> (\<exists>toml loaded.
     toToml (\<lambda>_. ''[root] ...'') exact_version example_lockfile = Inr toml \<and>
     fromToml (\<lambda>_. Inr example_document) toml = Inr loaded \<and>
     snap_name (ws_root (lf_workspace loaded)) = ''r'' \<and>
     snap_version (ws_root (lf_workspace loaded)) = ''1.0.0'' \<and>
     map snap_name (ws_members (lf_workspace loaded)) = [''m''] \<and>
     map snap_version (ws_members (lf_workspace loaded)) = [''0.1.0''] \<and>
     map reg_name (lf_packages loaded) = [''a'', ''b''] \<and>
     map reg_version (lf_packages loaded) = [''1.0.0'', ''2.0.0''] \<and>
     map dep_name (snap_dependencies (ws_root (lf_workspace loaded))) = [''a''] \<and>
     map (map dep_name \<circ> snap_dependencies) (ws_members (lf_workspace loaded)) = [[''b'']] \<and>
     map (map dep_name \<circ> reg_dependencies) (lf_packages loaded) = [[''b''], []])"
proof -
  have deps: "lockfile_dependencies example_lockfile
      = [dep ''a'' ''1.0.0'', dep ''b'' ''2.0.0'', dep ''b'' ''2.0.0'']"
    by (simp add: lockfile_dependencies_def example_lockfile_def lock_def snap_def reg_def)
  have c: "complete exact_version example_lockfile"
    unfolding complete_def deps
    by (simp add: example_lockfile_def lock_def reg_def dep_def getRegistration_def
        exact_version_def)
  have s: "\<forall>d \<in> set (lockfile_dependencies example_lockfile). CHR '' '' \<notin> set (dep_name d)"
    unfolding deps by (simp add: dep_def)
  have d: "toDocument exact_version example_lockfile = Inr example_document"
    by (simp add: toDocument_def prepareManifest_def preparePackage_def toDependencyId_def
        getRegistration_def exact_version_def example_lockfile_def example_document_def
        lock_def snap_def reg_def dep_def manifest_table_def package_table_def)
  have k: "\<forall>document. toDocument exact_version example_lockfile = Inr document
      \<longrightarrow> reads_back (\<lambda>_. Inr example_document) (\<lambda>_. ''[root] ...'') document"
    by (simp add: d reads_back_def)
  from lockfile_round_trip
    [where accepts = exact_version and lockfile = example_lockfile
       and parseToml = "\<lambda>_. Inr example_document" and convertToToml = "\<lambda>_. ''[root] ...''",
     OF c s _ _ _ k]
  have "\<exists>toml loaded.
     toToml (\<lambda>_. ''[root] ...'') exact_version example_lockfile = Inr toml \<and>
     fromToml (\<lambda>_. Inr example_document) toml = Inr loaded \<and>
     snap_name (ws_root (lf_workspace loaded)) = ''r'' \<and>
     snap_version (ws_root (lf_workspace loaded)) = ''1.0.0'' \<and>
     map snap_name (ws_members (lf_workspace loaded)) = [''m''] \<and>
     map snap_version (ws_members (lf_workspace loaded)) = [''0.1.0''] \<and>
     map reg_name (lf_packages loaded) = [''a'', ''b''] \<and>
     map reg_version (lf_packages loaded) = [''1.0.0'', ''2.0.0''] \<and>
     map dep_name (snap_dependencies (ws_root (lf_workspace loaded))) = [''a''] \<and>
     map (map dep_name \<circ> snap_dependencies) (ws_members (lf_workspace loaded)) = [[''b'']] \<and>
     map (map dep_name \<circ> reg_dependencies) (lf_packages loaded) = [[''b''], []]"
    by (simp add: example_lockfile_def lock_def snap_def reg_def dep_def)
  with c show ?thesis by blast
qed

text \<open>
  C1 as stated fails. A complete lockfile whose package \<open>my lib\<close> has a space in its
  name is written with the id \<open>my lib 1.0.0 registry+x#c1\<close>; reading cuts the id at
  its first space, looks for a package \<open>my\<close> and fails. A complete lockfile with a
  package whose source is empty is written, and reading rejects the package; one whose
  root has an empty version is written, and reading rejects the root. In each case the
  parser returns exactly the document that was written.
\<close>

theorem lockfile_round_trip_counterexample:
  "complete exact_version spaced_lockfile
   \<and> toDocument exact_version spaced_lockfile = Inr spaced_document
   \<and> reads_back (\<lambda>_. Inr spaced_document) (\<lambda>_. ''[root] ...'') spaced_document
   \<and> toToml (\<lambda>_. ''[root] ...'') exact_version spaced_lockfile = Inr ''[root] ...''
   \<and> fromToml (\<lambda>_. Inr spaced_document) ''[root] ...''
       = Inl (PackageNotFound ''my lib 1.0.0 registry+x#c1'')
   \<and> complete exact_version sourceless_lockfile
   \<and> toDocument exact_version sourceless_lockfile = Inr sourceless_document
   \<and> reads_back (\<lambda>_. Inr sourceless_document) (\<lambda>_. ''[root] ...'') sourceless_document
   \<and> toToml (\<lambda>_. ''[root] ...'') exact_version sourceless_lockfile = Inr ''[root] ...''
   \<and> fromToml (\<lambda>_. Inr sourceless_document) ''[root] ...'' = Inl InvalidPackage
   \<and> complete exact_version versionless_lockfile
   \<and> toDocument exact_version versionless_lockfile = Inr versionless_document
   \<and> fromToml (\<lambda>_. Inr versionless_document) ''[root] ...'' = Inl InvalidManifest"
proof -
  have 11: "complete exact_version versionless_lockfile
   \<and> toDocument exact_version versionless_lockfile = Inr versionless_document
   \<and> fromToml (\<lambda>_. Inr versionless_document) ''[root] ...'' = Inl InvalidManifest"
    by (simp add: versionless_lockfile_def versionless_document_def complete_def
        lockfile_dependencies_def lock_def snap_def toDocument_def prepareManifest_def
        manifest_table_def fromToml_def fromParsed_def or_empty_def toManifest_def)
  have 1: "complete exact_version spaced_lockfile"
    by (simp add: complete_def lockfile_dependencies_def spaced_lockfile_def lock_def snap_def
        reg_def dep_def getRegistration_def exact_version_def)
  have 2: "toDocument exact_version spaced_lockfile = Inr spaced_document"
    by (simp add: toDocument_def prepareManifest_def preparePackage_def toDependencyId_def
        getRegistration_def exact_version_def spaced_lockfile_def spaced_document_def
        lock_def snap_def reg_def dep_def manifest_table_def package_table_def)
  have 3: "reads_back (\<lambda>_. Inr spaced_document) (\<lambda>_. ''[root] ...'') spaced_document"
    by (simp add: reads_back_def)
  have 4: "toToml (\<lambda>_. ''[root] ...'') exact_version spaced_lockfile = Inr ''[root] ...''"
    by (simp add: toToml_def 2)
  have 5: "fromToml (\<lambda>_. Inr spaced_document) ''[root] ...''
       = Inl (PackageNotFound ''my lib 1.0.0 registry+x#c1'')"
    by (simp add: fromToml_def fromParsed_def spaced_document_def or_empty_def
        manifest_table_def package_table_def load_package_def hydrate_def toManifest_def
        getDependency_def id_name_def)
  have 6: "complete exact_version sourceless_lockfile"
    by (simp add: complete_def lockfile_dependencies_def sourceless_lockfile_def lock_def
        snap_def reg_def)
  have 7: "toDocument exact_version sourceless_lockfile = Inr sourceless_document"
    by (simp add: toDocument_def prepareManifest_def preparePackage_def
        sourceless_lockfile_def sourceless_document_def
        lock_def snap_def reg_def manifest_table_def package_table_def)
  have 8: "reads_back (\<lambda>_. Inr sourceless_document) (\<lambda>_. ''[root] ...'') sourceless_document"
    by (simp add: reads_back_def)
  have 9: "toToml (\<lambda>_. ''[root] ...'') exact_version sourceless_lockfile = Inr ''[root] ...''"
    by (simp add: toToml_def 7)
  have 10: "fromToml (\<lambda>_. Inr sourceless_document) ''[root] ...'' = Inl InvalidPackage"
    by (simp add: fromToml_def fromParsed_def sourceless_document_def or_empty_def
        package_table_def load_package_def)
  from 1 2 3 4 5 6 7 8 9 10 11 show ?thesis by blast
qed


subsection \<open>Updating the mirror\<close>

text \<open>
  C8. When the mirror directory exists, \<open>update\<close> is the pull and nothing else: no
  clone is made, whatever the directory holds, and the files stay as they are. When it
  is absent, \<open>update\<close> makes the parent directory, clones into it and then pulls; a
  call that fails ends the sequence, each call is made once, and the error of
  \<open>update\<close> is the error of the call that failed. After an update that succeeded
  (the clone having created the mirror directory) the directory exists, so the next
  update only pulls.
\<close>

theorem update_clones_only_when_absent:
  "(registry_local cfg \<in> dom (files w) \<longrightarrow>
      update env cfg w = pull env (registry_local cfg) w
      \<and> trace (snd (update env cfg w)) = trace w @ [Pull (registry_local cfg)]
      \<and> files (snd (update env cfg w)) = files w)
   \<and> (registry_local cfg \<notin> dom (files w) \<longrightarrow>
      trace (snd (update env cfg w)) = trace w @
        (let ensure = EnsureDir (dirname env (registry_local cfg));
             clone_it = Clone (registry_remote cfg) (basename env (registry_local cfg))
                          (dirname env (registry_local cfg))
         in if failure env ensure \<noteq> None then [ensure]
            else if failure env clone_it \<noteq> None then [ensure, clone_it]
            else [ensure, clone_it, Pull (registry_local cfg)]))
   \<and> fst (update env cfg w) =
       (let ensure = EnsureDir (dirname env (registry_local cfg));
            clone_it = Clone (registry_remote cfg) (basename env (registry_local cfg))
                         (dirname env (registry_local cfg));
            cloned = (if registry_local cfg \<in> dom (files w) then None
                      else case failure env ensure of Some e \<Rightarrow> Some e
                           | None \<Rightarrow> failure env clone_it)
        in case cloned of
             Some e \<Rightarrow> Inl e
           | None \<Rightarrow> (case failure env (Pull (registry_local cfg)) of
                        Some e \<Rightarrow> Inl e | None \<Rightarrow> Inr ()))
   \<and> (fst (update env cfg w) = Inr () \<longrightarrow>
       path_join env (dirname env (registry_local cfg)) (basename env (registry_local cfg))
         = registry_local cfg \<longrightarrow>
       registry_local cfg \<in> dom (files (snd (update env cfg w)))
       \<and> trace (snd (update env cfg (snd (update env cfg w))))
           = trace (snd (update env cfg w)) @ [Pull (registry_local cfg)]
       \<and> files (snd (update env cfg (snd (update env cfg w))))
           = files (snd (update env cfg w)))"
proof -
  have present: "update env cfg v = pull env (registry_local cfg) v"
    if "registry_local cfg \<in> dom (files v)" for v
    using that by (simp add: update_def and_then_def exists_path_def succeed_def Let_def)
  have pull_trace: "trace (snd (pull env l v)) = trace v @ [Pull l]"
    and pull_files: "files (snd (pull env l v)) = files v" for l v
    by (simp_all add: pull_def call_def succeed_def Let_def split: option.splits)
  have 1: "registry_local cfg \<in> dom (files w) \<longrightarrow>
      update env cfg w = pull env (registry_local cfg) w
      \<and> trace (snd (update env cfg w)) = trace w @ [Pull (registry_local cfg)]
      \<and> files (snd (update env cfg w)) = files w"
    by (simp add: present pull_trace pull_files)
  have 2: "registry_local cfg \<notin> dom (files w) \<longrightarrow>
      trace (snd (update env cfg w)) = trace w @
        (let ensure = EnsureDir (dirname env (registry_local cfg));
             clone_it = Clone (registry_remote cfg) (basename env (registry_local cfg))
                          (dirname env (registry_local cfg))
         in if failure env ensure \<noteq> None then [ensure]
            else if failure env clone_it \<noteq> None then [ensure, clone_it]
            else [ensure, clone_it, Pull (registry_local cfg)])"
    by (auto simp: update_def and_then_def exists_path_def succeed_def ensureDir_def
        clone_def pull_def call_def Let_def split: option.splits)
  have 3: "fst (update env cfg w) =
       (let ensure = EnsureDir (dirname env (registry_local cfg));
            clone_it = Clone (registry_remote cfg) (basename env (registry_local cfg))
                         (dirname env (registry_local cfg));
            cloned = (if registry_local cfg \<in> dom (files w) then None
                      else case failure env ensure of Some e \<Rightarrow> Some e
                           | None \<Rightarrow> failure env clone_it)
        in case cloned of
             Some e \<Rightarrow> Inl e
           | None \<Rightarrow> (case failure env (Pull (registry_local cfg)) of
                        Some e \<Rightarrow> Inl e | None \<Rightarrow> Inr ()))"
    by (auto simp: update_def and_then_def exists_path_def succeed_def ensureDir_def
        clone_def pull_def call_def Let_def split: option.splits)
  have created: "registry_local cfg \<in> dom (files (snd (update env cfg w)))"
    if "fst (update env cfg w) = Inr ()"
      and "path_join env (dirname env (registry_local cfg)) (basename env (registry_local cfg))
         = registry_local cfg"
    using that
    by (auto simp: update_def and_then_def exists_path_def succeed_def ensureDir_def
        clone_def pull_def call_def Let_def split: option.splits if_splits)
  have 4: "fst (update env cfg w) = Inr () \<longrightarrow>
       path_join env (dirname env (registry_local cfg)) (basename env (registry_local cfg))
         = registry_local cfg \<longrightarrow>
       registry_local cfg \<in> dom (files (snd (update env cfg w)))
       \<and> trace (snd (update env cfg (snd (update env cfg w))))
           = trace (snd (update env cfg w)) @ [Pull (registry_local cfg)]
       \<and> files (snd (update env cfg (snd (update env cfg w))))
           = files (snd (update env cfg w))"
    using created by (simp add: present pull_trace pull_files)
  from 1 2 3 4 show ?thesis by blast
qed

theorem update_clones_only_when_absent_witness:
  "trace (snd (update example_env example_config
                 \<lparr>files = [''/cache/registry'' \<mapsto> []], trace = []\<rparr>))
     = [Pull ''/cache/registry'']
   \<and> trace (snd (update example_env example_config empty_world))
     = [EnsureDir ''/cache'',
        Clone ''https://github.com/vba-blocks/registry'' ''registry'' ''/cache'',
        Pull ''/cache/registry'']
   \<and> fst (update unreachable_env example_config empty_world) = Inl (Thrown ''unreachable'')
   \<and> trace (snd (update unreachable_env example_config empty_world))
     = [EnsureDir ''/cache'',
        Clone ''https://github.com/vba-blocks/registry'' ''registry'' ''/cache'']
   \<and> trace (snd (update example_env example_config
                    (snd (update example_env example_config empty_world))))
     = [EnsureDir ''/cache'',
        Clone ''https://github.com/vba-blocks/registry'' ''registry'' ''/cache'',
        Pull ''/cache/registry'', Pull ''/cache/registry'']"
proof -
  note u = update_clones_only_when_absent
  have c: "registry_local example_config = ''/cache/registry''"
    "registry_remote example_config = ''https://github.com/vba-blocks/registry''"
    by (simp_all add: example_config_def)
  have e: "failure example_env a = None" "dirname example_env p = ''/cache''"
    "basename example_env p = ''registry''" "path_join example_env d n = d @ ''/'' @ n"
    "dirname unreachable_env p = ''/cache''" "basename unreachable_env p = ''registry''"
    "failure unreachable_env (EnsureDir d) = None"
    "failure unreachable_env (Clone r n d) = Some (Thrown ''unreachable'')"
    for a p d n r
    by (simp_all add: example_env_def unreachable_env_def)
  have w: "files empty_world = Map.empty" "trace empty_world = []"
    by (simp_all add: empty_world_def)
  let ?W = "\<lparr>files = [''/cache/registry'' \<mapsto> []], trace = []\<rparr>"
  have "registry_local example_config \<in> dom (files ?W)" by (simp add: c)
  with u[of example_config ?W example_env]
  have "trace (snd (update example_env example_config ?W))
      = trace ?W @ [Pull (registry_local example_config)]"
    by blast
  then have 1: "trace (snd (update example_env example_config ?W)) = [Pull ''/cache/registry'']"
    by (simp add: c)
  have absent: "registry_local example_config \<notin> dom (files empty_world)" by (simp add: w)
  with u[of example_config empty_world example_env]
  have "trace (snd (update example_env example_config empty_world)) = trace empty_world @
        (let ensure = EnsureDir (dirname example_env (registry_local example_config));
             clone_it = Clone (registry_remote example_config)
                          (basename example_env (registry_local example_config))
                          (dirname example_env (registry_local example_config))
         in if failure example_env ensure \<noteq> None then [ensure]
            else if failure example_env clone_it \<noteq> None then [ensure, clone_it]
            else [ensure, clone_it, Pull (registry_local example_config)])"
    by blast
  then have 2: "trace (snd (update example_env example_config empty_world))
     = [EnsureDir ''/cache'',
        Clone ''https://github.com/vba-blocks/registry'' ''registry'' ''/cache'',
        Pull ''/cache/registry'']"
    by (simp add: c e w)
  from absent u[of example_config empty_world unreachable_env]
  have "trace (snd (update unreachable_env example_config empty_world)) = trace empty_world @
        (let ensure = EnsureDir (dirname unreachable_env (registry_local example_config));
             clone_it = Clone (registry_remote example_config)
                          (basename unreachable_env (registry_local example_config))
                          (dirname unreachable_env (registry_local example_config))
         in if failure unreachable_env ensure \<noteq> None then [ensure]
            else if failure unreachable_env clone_it \<noteq> None then [ensure, clone_it]
            else [ensure, clone_it, Pull (registry_local example_config)])"
    by blast
  then have 4: "trace (snd (update unreachable_env example_config empty_world))
     = [EnsureDir ''/cache'',
        Clone ''https://github.com/vba-blocks/registry'' ''registry'' ''/cache'']"
    by (simp add: c e w)
  from u[of example_config empty_world unreachable_env]
  have "fst (update unreachable_env example_config empty_world) =
       (let ensure = EnsureDir (dirname unreachable_env (registry_local example_config));
            clone_it = Clone (registry_remote example_config)
                         (basename unreachable_env (registry_local example_config))
                         (dirname unreachable_env (registry_local example_config));
            cloned = (if registry_local example_config \<in> dom (files empty_world) then None
                      else case failure unreachable_env ensure of Some e \<Rightarrow> Some e
                           | None \<Rightarrow> failure unreachable_env clone_it)
        in case cloned of
             Some e \<Rightarrow> Inl e
           | None \<Rightarrow> (case failure unreachable_env (Pull (registry_local example_config)) of
                        Some e \<Rightarrow> Inl e | None \<Rightarrow> Inr ()))"
    by blast
  then have 3: "fst (update unreachable_env example_config empty_world)
      = Inl (Thrown ''unreachable'')"
    by (simp add: c e w)
  from u[of example_config empty_world example_env]
  have "fst (update example_env example_config empty_world) =
       (let ensure = EnsureDir (dirname example_env (registry_local example_config));
            clone_it = Clone (registry_remote example_config)
                         (basename example_env (registry_local example_config))
                         (dirname example_env (registry_local example_config));
            cloned = (if registry_local example_config \<in> dom (files empty_world) then None
                      else case failure example_env ensure of Some e \<Rightarrow> Some e
                           | None \<Rightarrow> failure example_env clone_it)
        in case cloned of
             Some e \<Rightarrow> Inl e
           | None \<Rightarrow> (case failure example_env (Pull (registry_local example_config)) of
                        Some e \<Rightarrow> Inl e | None \<Rightarrow> Inr ()))"
    by blast
  then have ok: "fst (update example_env example_config empty_world) = Inr ()"
    by (simp add: c e w)
  have joined: "path_join example_env (dirname example_env (registry_local example_config))
        (basename example_env (registry_local example_config)) = registry_local example_config"
    by (simp add: c e)
  from u[of example_config empty_world example_env] ok joined
  have "trace (snd (update example_env example_config
                    (snd (update example_env example_config empty_world))))
      = trace (snd (update example_env example_config empty_world))
        @ [Pull (registry_local example_config)]"
    by blast
  then have 5: "trace (snd (update example_env example_config
                    (snd (update example_env example_config empty_world))))
     = [EnsureDir ''/cache'',
        Clone ''https://github.com/vba-blocks/registry'' ''registry'' ''/cache'',
        Pull ''/cache/registry'', Pull ''/cache/registry'']"
    by (simp add: 2 c)
  from 1 2 3 4 5 show ?thesis by blast
qed

subsection \<open>Fetching an archive\<close>

lemma source_checksum_embedded:
  "CHR ''#'' \<notin> set location \<Longrightarrow> CHR ''#'' \<notin> set expected \<Longrightarrow>
     source_checksum (location @ CHR ''#'' # expected) = Some expected"
proof -
  assume l: "CHR ''#'' \<notin> set location" and e: "CHR ''#'' \<notin> set expected"
  from l have "dropWhile (\<lambda>c. c \<noteq> CHR ''#'') (location @ CHR ''#'' # expected)
      = CHR ''#'' # expected"
    by (induction location) auto
  moreover from e have "takeWhile (\<lambda>c. c \<noteq> CHR ''#'') expected = expected"
    by (induction expected) auto
  ultimately show ?thesis by (simp add: source_checksum_def)
qed

text \<open>
  C2. The archive is not at its trusted path, the temporary file is created (a new
  path, other than the trusted one), the download into it succeeds and its checksum is computed, and the checksum differs from
  the one the source of the registration carries after \<open>#\<close>. Then \<open>fetch\<close> raises
  \<open>InvalidChecksum\<close> with the name and the version of the package; the calls it made
  are the temporary file, the download and the checksum, so nothing was moved or
  extracted; the trusted path is still absent and every path that existed before is
  unchanged.
\<close>

theorem fetch_rejects_checksum_mismatch:
  assumes absent: "resolveLocalPackage cfg registration \<notin> dom (files w)"
    and tmp_made: "failure env TmpFile = None" "tmp_path env (files w) \<notin> dom (files w)"
      "tmp_path env (files w) \<noteq> resolveLocalPackage cfg registration"
    and downloaded: "failure env (Download (resolveRemotePackage cfg registration)
                       (tmp_path env (files w))) = None"
    and summed: "failure env (Checksum (tmp_path env (files w))) = None"
    and mismatch: "Some (digest env (remote_content env (resolveRemotePackage cfg registration)))
                     \<noteq> source_checksum (reg_source registration)"
  shows "fst (fetch env cfg registration w)
           = Inl (InvalidChecksum (reg_name registration) (reg_version registration))
       \<and> trace (snd (fetch env cfg registration w))
           = trace w @ [TmpFile,
                        Download (resolveRemotePackage cfg registration) (tmp_path env (files w)),
                        Checksum (tmp_path env (files w))]
       \<and> resolveLocalPackage cfg registration \<notin> dom (files (snd (fetch env cfg registration w)))
       \<and> (\<forall>p \<in> dom (files w). files (snd (fetch env cfg registration w)) p = files w p)"
  using assms
  by (auto simp: fetch_def and_then_def exists_path_def tmpFile_def download_def
      getChecksum_def throw_def call_def Let_def)

theorem fetch_rejects_checksum_mismatch_witness:
  "fst (fetch example_env example_config (reg ''a'' ''1.0.0'' ''registry+x#deadbeef'' [])
          empty_world)
     = Inl (InvalidChecksum ''a'' ''1.0.0'')
   \<and> trace (snd (fetch example_env example_config
                    (reg ''a'' ''1.0.0'' ''registry+x#deadbeef'' []) empty_world))
     = [TmpFile, Download ''https://packages/a-v1.0.0'' ''/tmp/tmp-1'', Checksum ''/tmp/tmp-1'']
   \<and> ''/cache/packages/a-v1.0.0''
       \<notin> dom (files (snd (fetch example_env example_config
                             (reg ''a'' ''1.0.0'' ''registry+x#deadbeef'' []) empty_world)))"
proof -
  let ?r = "reg ''a'' ''1.0.0'' ''registry+x#deadbeef'' []"
  have c: "resolveLocalPackage example_config ?r = ''/cache/packages/a-v1.0.0''"
    "resolveRemotePackage example_config ?r = ''https://packages/a-v1.0.0''"
    by (simp_all add: example_config_def reg_def)
  have e: "failure example_env a = None" "tmp_path example_env fs = ''/tmp/tmp-1''"
    "digest example_env content = ''beefdead''" for a fs content
    by (simp_all add: example_env_def)
  have w: "files empty_world = Map.empty" "trace empty_world = []"
    by (simp_all add: empty_world_def)
  have r: "reg_name ?r = ''a''" "reg_version ?r = ''1.0.0''"
    "source_checksum (reg_source ?r) = Some ''deadbeef''"
    by (simp_all add: reg_def source_checksum_def)
  show ?thesis
    using fetch_rejects_checksum_mismatch[of example_config ?r empty_world example_env]
    by (simp add: c e w r)
qed

subsection \<open>Reading the index\<close>

lemma run_reader_parsed:
  "map JSON_parse ls = map Inr records \<Longrightarrow>
     run_reader JSON_parse registrations (map Line ls @ rest)
       = run_reader JSON_parse
           (registrations @
            map (\<lambda>r. \<lparr>reg_id = None, reg_name = ir_name r, reg_version = ir_vers r,
                      reg_source = ''registry+https://github.com/vba-blocks/registry#'' @ ir_cksum r,
                      reg_features = ir_features r,
                      reg_dependencies =
                        map (\<lambda>d. \<lparr>dep_name = idep_name d, dep_version = idep_req d,
                                  dep_source = None, dep_features = idep_features d,
                                  dep_optional = idep_optional d,
                                  dep_default_features = idep_default_features d\<rparr>)
                            (ir_deps r)\<rparr>)
              (filter (\<lambda>r. ir_yanked r \<noteq> Some True) records))
           rest"
proof (induction ls arbitrary: registrations records)
  case Nil
  then show ?case by simp
next
  case (Cons l ls)
  from Cons.prems obtain r rs where records: "records = r # rs"
    and l: "JSON_parse l = Inr r" and ls: "map JSON_parse ls = map Inr rs"
    by (auto simp: map_eq_Cons_conv)
  show ?case
    unfolding records using l Cons.IH[OF ls]
    by (simp add: on_line_def)
qed

lemma run_reader_malformed:
  "l \<in> set ls \<Longrightarrow> JSON_parse l = Inl e \<Longrightarrow>
     \<exists>e'. run_reader JSON_parse registrations (map Line ls @ rest) = Uncaught e'
          \<and> (\<exists>l' \<in> set ls. JSON_parse l' = Inl e')"
proof (induction ls arbitrary: registrations)
  case Nil
  then show ?case by simp
next
  case (Cons a ls)
  show ?case
  proof (cases "JSON_parse a")
    case (Inl e')
    then show ?thesis by (auto simp: on_line_def)
  next
    case (Inr r)
    with Cons.prems have "l \<in> set ls" by auto
    from Cons.IH[OF this Cons.prems(2)] Inr show ?thesis
      by (auto simp: on_line_def)
  qed
qed

lemma run_reader_Resolved_D:
  "run_reader JSON_parse registrations events = Resolved result \<Longrightarrow>
     \<exists>ls records rest.
        events = map Line ls @ Close # rest \<and> map JSON_parse ls = map Inr records \<and>
        result = registrations @
            map (\<lambda>r. \<lparr>reg_id = None, reg_name = ir_name r, reg_version = ir_vers r,
                      reg_source = ''registry+https://github.com/vba-blocks/registry#'' @ ir_cksum r,
                      reg_features = ir_features r,
                      reg_dependencies =
                        map (\<lambda>d. \<lparr>dep_name = idep_name d, dep_version = idep_req d,
                                  dep_source = None, dep_features = idep_features d,
                                  dep_optional = idep_optional d,
                                  dep_default_features = idep_default_features d\<rparr>)
                            (ir_deps r)\<rparr>)
              (filter (\<lambda>r. ir_yanked r \<noteq> Some True) records)"
proof (induction JSON_parse registrations events rule: run_reader.induct)
  case (1 JSON_parse registrations)
  then show ?case by simp
next
  case (2 JSON_parse registrations line events)
  from "2.prems" obtain r registrations' where r: "JSON_parse line = Inr r"
    and step: "on_line JSON_parse registrations line = Inr registrations'"
    and run: "run_reader JSON_parse registrations' events = Resolved result"
    by (auto simp: on_line_def split: sum.splits)
  from "2.IH"[OF step run] obtain ls records rest where
    events: "events = map Line ls @ Close # rest"
    and parsed: "map JSON_parse ls = map Inr records"
    and result: "result = registrations' @
            map (\<lambda>r. \<lparr>reg_id = None, reg_name = ir_name r, reg_version = ir_vers r,
                      reg_source = ''registry+https://github.com/vba-blocks/registry#'' @ ir_cksum r,
                      reg_features = ir_features r,
                      reg_dependencies =
                        map (\<lambda>d. \<lparr>dep_name = idep_name d, dep_version = idep_req d,
                                  dep_source = None, dep_features = idep_features d,
                                  dep_optional = idep_optional d,
                                  dep_default_features = idep_default_features d\<rparr>)
                            (ir_deps r)\<rparr>)
              (filter (\<lambda>r. ir_yanked r \<noteq> Some True) records)"
    by blast
  have "Line line # events = map Line (line # ls) @ Close # rest" using events by simp
  moreover have "map JSON_parse (line # ls) = map Inr (r # records)" using r parsed by simp
  moreover have "result = registrations @
            map (\<lambda>r. \<lparr>reg_id = None, reg_name = ir_name r, reg_version = ir_vers r,
                      reg_source = ''registry+https://github.com/vba-blocks/registry#'' @ ir_cksum r,
                      reg_features = ir_features r,
                      reg_dependencies =
                        map (\<lambda>d. \<lparr>dep_name = idep_name d, dep_version = idep_req d,
                                  dep_source = None, dep_features = idep_features d,
                                  dep_optional = idep_optional d,
                                  dep_default_features = idep_default_features d\<rparr>)
                            (ir_deps r)\<rparr>)
              (filter (\<lambda>r. ir_yanked r \<noteq> Some True) (r # records))"
    using step r result by (auto simp: on_line_def split: if_splits)
  ultimately show ?case by blast
next
  case (3 JSON_parse registrations events)
  then have "result = registrations" by simp
  then show ?case
    by (intro exI[where x = "[]"] exI[where x = events]) simp
next
  case (4 JSON_parse registrations e events)
  then show ?case by simp
qed

text \<open>
  For a name of one, two or three characters \<open>getPath\<close> passes a number to
  \<open>path.join\<close>, so \<open>resolve\<close> rejects with the \<open>TypeError\<close> whatever the file holds.
\<close>

lemma resolve_rejects_short_names:
  "length (dep_name dependency) \<in> {1, 2, 3} \<Longrightarrow>
     resolve JSON_parse read_events join cfg dependency = Rejected (Thrown ''TypeError'')"
  by (auto simp: resolve_def getPath_def getPath_parts_def join_checked_def)

lemma example_paths:
  "getPath (join_checked example_join) example_config ''left-pad''
     = Inr ''/cache/registry/le/ft/left-pad''"
  "getPath (join_checked example_join) example_config ''abc'' = Inl (Thrown ''TypeError'')"
  by (simp_all add: getPath_def getPath_parts_def substring_def join_checked_def
      example_join_def example_config_def)

text \<open>
  C5. Where the path of the index file is built, the reader emits the lines of the file
  and then whatever follows. If a line of the file is not valid JSON, \<open>resolve\<close> never
  resolves, neither with the registrations of the lines before the malformed one nor
  with those of the lines after it: it ends with the parser's exception for a line of
  the file, uncaught, or, where \<open>path.join\<close> fails, it rejects with that failure
  before any line is read.
\<close>

theorem resolve_fails_on_malformed_line:
  assumes "l \<in> set ls" and "JSON_parse l = Inl e"
    and "\<forall>path. getPath (join_checked join) cfg (dep_name dependency) = Inr path
           \<longrightarrow> read_events path = map Line ls @ rest"
  shows "(\<forall>registrations.
             resolve JSON_parse read_events join cfg dependency \<noteq> Resolved registrations)
       \<and> (\<forall>path. getPath (join_checked join) cfg (dep_name dependency) = Inr path \<longrightarrow>
             (\<exists>e'. resolve JSON_parse read_events join cfg dependency = Uncaught e'
                   \<and> (\<exists>l' \<in> set ls. JSON_parse l' = Inl e')))
       \<and> (\<forall>e'. getPath (join_checked join) cfg (dep_name dependency) = Inl e' \<longrightarrow>
             resolve JSON_parse read_events join cfg dependency = Rejected e')"
proof (cases "getPath (join_checked join) cfg (dep_name dependency)")
  case (Inl e')
  then show ?thesis by (simp add: resolve_def)
next
  case (Inr path)
  with assms(3) have events: "read_events path = map Line ls @ rest" by blast
  from run_reader_malformed[where l = l and ls = ls and JSON_parse = JSON_parse and e = e
      and registrations = "[]" and rest = rest, OF assms(1,2)]
  obtain e' where "run_reader JSON_parse [] (map Line ls @ rest) = Uncaught e'"
    and "\<exists>l' \<in> set ls. JSON_parse l' = Inl e'" by blast
  with Inr events show ?thesis by (auto simp: resolve_def)
qed

theorem resolve_fails_on_malformed_line_witness:
  "(\<exists>e'. resolve example_parse
            (\<lambda>_. [Line ''{name:left-pad,vers:1.0.0,...,yanked:false}'', Line ''{name:left'',
                  Line ''{name:left-pad,vers:1.0.1,...,yanked:true}'', Close])
            example_join example_config (dep ''left-pad'' ''^1.0.0'')
          = Uncaught e')
   \<and> resolve example_parse
        (\<lambda>_. [Line ''{name:left-pad,vers:1.0.0,...,yanked:false}'', Line ''{name:left'',
              Line ''{name:left-pad,vers:1.0.1,...,yanked:true}'', Close])
        example_join example_config (dep ''left-pad'' ''^1.0.0'')
      \<noteq> Resolved [\<lparr>reg_id = None, reg_name = ''left-pad'', reg_version = ''1.0.0'',
                     reg_source = ''registry+https://github.com/vba-blocks/registry#abc123'',
                     reg_features = None,
                     reg_dependencies =
                       [\<lparr>dep_name = ''a'', dep_version = ''^1.0.0'', dep_source = None,
                         dep_features = None, dep_optional = Some False,
                         dep_default_features = Some True\<rparr>]\<rparr>]
   \<and> resolve example_parse
        (\<lambda>_. [Line ''{name:abc,vers:1.0.0,...,yanked:false}'', Line ''{name:abc'', Close])
        example_join example_config (dep ''abc'' ''^1.0.0'')
      = Rejected (Thrown ''TypeError'')"
proof -
  let ?events = "\<lambda>_::string. [Line ''{name:left-pad,vers:1.0.0,...,yanked:false}'',
                  Line ''{name:left'',
                  Line ''{name:left-pad,vers:1.0.1,...,yanked:true}'', Close]"
  let ?short = "\<lambda>_::string. [Line ''{name:abc,vers:1.0.0,...,yanked:false}'',
                  Line ''{name:abc'', Close]"
  have bad: "example_parse ''{name:left'' = Inl (Thrown ''SyntaxError'')"
    "example_parse ''{name:abc'' = Inl (Thrown ''SyntaxError'')"
    by (simp_all add: example_parse_def)
  have names: "dep_name (dep ''left-pad'' ''^1.0.0'') = ''left-pad''"
    "dep_name (dep ''abc'' ''^1.0.0'') = ''abc''"
    by (simp_all add: dep_def)
  note long = resolve_fails_on_malformed_line
    [where JSON_parse = example_parse and l = "''{name:left''"
       and e = "Thrown ''SyntaxError''"
       and ls = "[''{name:left-pad,vers:1.0.0,...,yanked:false}'', ''{name:left'',
                  ''{name:left-pad,vers:1.0.1,...,yanked:true}'']"
       and rest = "[Close]" and read_events = ?events
       and join = example_join and cfg = example_config
       and dependency = "dep ''left-pad'' ''^1.0.0''", OF _ bad(1)]
  have 1: "(\<exists>e'. resolve example_parse ?events example_join example_config
                   (dep ''left-pad'' ''^1.0.0'') = Uncaught e')
      \<and> resolve example_parse ?events example_join example_config (dep ''left-pad'' ''^1.0.0'')
        \<noteq> Resolved [\<lparr>reg_id = None, reg_name = ''left-pad'', reg_version = ''1.0.0'',
                     reg_source = ''registry+https://github.com/vba-blocks/registry#abc123'',
                     reg_features = None,
                     reg_dependencies =
                       [\<lparr>dep_name = ''a'', dep_version = ''^1.0.0'', dep_source = None,
                         dep_features = None, dep_optional = Some False,
                         dep_default_features = Some True\<rparr>]\<rparr>]"
    using long by (auto simp: names example_paths)
  note short = resolve_fails_on_malformed_line
    [where JSON_parse = example_parse and l = "''{name:abc''"
       and e = "Thrown ''SyntaxError''"
       and ls = "[''{name:abc,vers:1.0.0,...,yanked:false}'', ''{name:abc'']"
       and rest = "[Close]" and read_events = ?short
       and join = example_join and cfg = example_config
       and dependency = "dep ''abc'' ''^1.0.0''", OF _ bad(2)]
  have 2: "resolve example_parse ?short example_join example_config (dep ''abc'' ''^1.0.0'')
      = Rejected (Thrown ''TypeError'')"
    using short by (auto simp: names example_paths)
  from 1 2 show ?thesis by blast
qed

text \<open>
  C7, as amended. Whenever \<open>resolve\<close> resolves, the path of the index file was built,
  the reader emitted lines that all parse and then closed, and the result holds one
  registration for each of their records that is not yanked, in the order of the file,
  and none for a yanked record; and whenever the path is built, the lines all parse and
  the reader closes after them, \<open>resolve\<close> resolves so. The constraint of the queried
  dependency is not consulted. The registration has the name and the version of the
  record, the source \<open>registry+https://github.com/vba-blocks/registry#\<close> followed by
  the record's checksum, whatever remote the configuration names, the record's features,
  and for each entry of \<open>deps\<close> a dependency with the same name, \<open>req\<close> as its
  version, and the same features, optional and default-features values.
\<close>

theorem resolve_drops_yanked_records:
  "let registration_of =
         (\<lambda>r. \<lparr>reg_id = None, reg_name = ir_name r, reg_version = ir_vers r,
                reg_source = ''registry+https://github.com/vba-blocks/registry#'' @ ir_cksum r,
                reg_features = ir_features r,
                reg_dependencies =
                  map (\<lambda>d. \<lparr>dep_name = idep_name d, dep_version = idep_req d,
                            dep_source = None, dep_features = idep_features d,
                            dep_optional = idep_optional d,
                            dep_default_features = idep_default_features d\<rparr>)
                      (ir_deps r)\<rparr>)
   in (\<forall>registrations.
         resolve JSON_parse read_events join cfg dependency = Resolved registrations \<longrightarrow>
         (\<exists>path ls records rest.
            getPath (join_checked join) cfg (dep_name dependency) = Inr path \<and>
            read_events path = map Line ls @ Close # rest \<and>
            map JSON_parse ls = map Inr records \<and>
            registrations
              = map registration_of (filter (\<lambda>r. ir_yanked r \<noteq> Some True) records)))
    \<and> (\<forall>path ls records rest.
         getPath (join_checked join) cfg (dep_name dependency) = Inr path \<longrightarrow>
         read_events path = map Line ls @ Close # rest \<longrightarrow>
         map JSON_parse ls = map Inr records \<longrightarrow>
         resolve JSON_parse read_events join cfg dependency
           = Resolved (map registration_of (filter (\<lambda>r. ir_yanked r \<noteq> Some True) records)))"
proof -
  have shape: "\<exists>path ls records rest.
            getPath (join_checked join) cfg (dep_name dependency) = Inr path \<and>
            read_events path = map Line ls @ Close # rest \<and>
            map JSON_parse ls = map Inr records \<and>
            registrations
              = map (\<lambda>r. \<lparr>reg_id = None, reg_name = ir_name r, reg_version = ir_vers r,
                reg_source = ''registry+https://github.com/vba-blocks/registry#'' @ ir_cksum r,
                reg_features = ir_features r,
                reg_dependencies =
                  map (\<lambda>d. \<lparr>dep_name = idep_name d, dep_version = idep_req d,
                            dep_source = None, dep_features = idep_features d,
                            dep_optional = idep_optional d,
                            dep_default_features = idep_default_features d\<rparr>)
                      (ir_deps r)\<rparr>) (filter (\<lambda>r. ir_yanked r \<noteq> Some True) records)"
    if r: "resolve JSON_parse read_events join cfg dependency = Resolved registrations"
    for registrations
  proof -
    from r obtain path where path: "getPath (join_checked join) cfg (dep_name dependency) = Inr path"
      and run: "run_reader JSON_parse [] (read_events path) = Resolved registrations"
      by (auto simp: resolve_def split: sum.splits)
    from run_reader_Resolved_D[OF run] path show ?thesis by auto
  qed
  have resolves: "resolve JSON_parse read_events join cfg dependency
           = Resolved (map (\<lambda>r. \<lparr>reg_id = None, reg_name = ir_name r, reg_version = ir_vers r,
                reg_source = ''registry+https://github.com/vba-blocks/registry#'' @ ir_cksum r,
                reg_features = ir_features r,
                reg_dependencies =
                  map (\<lambda>d. \<lparr>dep_name = idep_name d, dep_version = idep_req d,
                            dep_source = None, dep_features = idep_features d,
                            dep_optional = idep_optional d,
                            dep_default_features = idep_default_features d\<rparr>)
                      (ir_deps r)\<rparr>) (filter (\<lambda>r. ir_yanked r \<noteq> Some True) records))"
    if "getPath (join_checked join) cfg (dep_name dependency) = Inr path"
      and "read_events path = map Line ls @ Close # rest"
      and "map JSON_parse ls = map Inr records" for path ls records rest
    using that by (simp add: resolve_def run_reader_parsed)
  from shape resolves show ?thesis unfolding Let_def by blast
qed

theorem resolve_drops_yanked_records_witness:
  "resolve example_parse
     (\<lambda>_. [Line ''{name:left-pad,vers:1.0.0,...,yanked:false}'',
           Line ''{name:left-pad,vers:1.0.1,...,yanked:true}'', Close])
     example_join example_config (dep ''left-pad'' ''^1.0.0'')
   = Resolved [\<lparr>reg_id = None, reg_name = ''left-pad'', reg_version = ''1.0.0'',
                 reg_source = ''registry+https://github.com/vba-blocks/registry#abc123'',
                 reg_features = None,
                 reg_dependencies =
                   [\<lparr>dep_name = ''a'', dep_version = ''^1.0.0'', dep_source = None,
                     dep_features = None, dep_optional = Some False,
                     dep_default_features = Some True\<rparr>]\<rparr>]"
proof -
  let ?events = "\<lambda>_::string. [Line ''{name:left-pad,vers:1.0.0,...,yanked:false}'',
                  Line ''{name:left-pad,vers:1.0.1,...,yanked:true}'', Close]"
  have path: "getPath (join_checked example_join) example_config
                (dep_name (dep ''left-pad'' ''^1.0.0''))
      = Inr ''/cache/registry/le/ft/left-pad''"
    by (simp add: dep_def example_paths)
  have events: "?events ''/cache/registry/le/ft/left-pad''
      = map Line [''{name:left-pad,vers:1.0.0,...,yanked:false}'',
                  ''{name:left-pad,vers:1.0.1,...,yanked:true}''] @ Close # []"
    by simp
  have parsed: "map example_parse [''{name:left-pad,vers:1.0.0,...,yanked:false}'',
                  ''{name:left-pad,vers:1.0.1,...,yanked:true}'']
      = map Inr [example_record,
                 example_record\<lparr>ir_vers := ''1.0.1'', ir_yanked := Some True\<rparr>]"
    by (simp add: example_parse_def)
  from resolve_drops_yanked_records
      [where JSON_parse = example_parse and read_events = ?events and join = example_join
         and cfg = example_config and dependency = "dep ''left-pad'' ''^1.0.0''",
       unfolded Let_def, THEN conjunct2, rule_format, OF path events parsed]
  show ?thesis by (simp add: example_record_def)
qed

text \<open>
  C7 as stated fails. The claim puts the remote URL of the registry into the source.
  With a configuration whose remote is \<open>https://example.com/registry\<close>, the
  registration of the record with the checksum \<open>abc123\<close> has the source
  \<open>registry+https://github.com/vba-blocks/registry#abc123\<close>, not
  \<open>registry+https://example.com/registry#abc123\<close>.
\<close>

theorem resolve_drops_yanked_records_counterexample:
  "registry_remote (example_config\<lparr>registry_remote := ''https://example.com/registry''\<rparr>)
     = ''https://example.com/registry''
   \<and> resolve example_parse
       (\<lambda>_. [Line ''{name:left-pad,vers:1.0.0,...,yanked:false}'', Close])
       example_join (example_config\<lparr>registry_remote := ''https://example.com/registry''\<rparr>)
       (dep ''left-pad'' ''^1.0.0'')
     = Resolved [\<lparr>reg_id = None, reg_name = ''left-pad'', reg_version = ''1.0.0'',
                   reg_source = ''registry+https://github.com/vba-blocks/registry#abc123'',
                   reg_features = None,
                   reg_dependencies =
                     [\<lparr>dep_name = ''a'', dep_version = ''^1.0.0'', dep_source = None,
                       dep_features = None, dep_optional = Some False,
                       dep_default_features = Some True\<rparr>]\<rparr>]
   \<and> ''registry+https://github.com/vba-blocks/registry#abc123''
       \<noteq> ''registry+'' @ ''https://example.com/registry'' @ ''#'' @ ''abc123''"
  by (simp add: resolve_def getPath_def getPath_parts_def substring_def join_checked_def
      example_join_def example_config_def dep_def on_line_def example_parse_def
      example_record_def)

end
